theory Spec2Isabelle
  imports Complex_Main
begin

section \<open>Data model\<close>

text \<open>
  The email services of the repository: the account registry
  (\<^verbatim>\<open>email-account-service.ts\<close>), the provider clients (\<^verbatim>\<open>gmail-client.ts\<close>, the IMAP
  client), the search service with its classifier, and the tool handlers
  (\<^verbatim>\<open>email-tools-handlers.ts\<close>).

  JavaScript numbers that carry scores are modelled as exact reals, identifiers and
  \<^verbatim>\<open>maxResults\<close> as integers, dates as integer milliseconds since the epoch. Strings are
  byte strings; case folding is modelled on the ASCII letters. A thrown \<^verbatim>\<open>Error\<close> is a
  value \<open>Error msg\<close> on the left of a sum.
\<close>

datatype error = Error string

datatype provider = Gmail | Imap

datatype ProviderConfig =
    GmailConfig "string option"
  | ImapConfig "string option" "int option" "string option" "string option" bool

record EmailAccount =
  acc_id :: int
  accountName :: string
  email :: string
  provider :: provider
  providerConfig :: ProviderConfig
  isActive :: bool
  lastSyncAt :: "int option"
  syncError :: "string option"
  defaultMailbox :: string
  includeSent :: bool
  includeArchived :: bool
  autoDetectPriority :: bool
  customUrgentKeywords :: "string list"
  customImportantKeywords :: "string list"

record EmailMessage =
  msg_id :: string
  subject :: string
  sender :: string
  recipients :: "string list"
  body :: string
  snippet :: string
  receivedAt :: int
  isRead :: bool
  hasAttachments :: bool
  labels :: "string list"

record Classification =
  isUrgent :: bool
  isImportant :: bool
  urgencyScore :: real
  importanceScore :: real
  reasons :: "string list"

text \<open>
  What the code takes from its surroundings: the regular-expression engine on patterns
  that are not plain text (\<open>None\<close> when \<^verbatim>\<open>new RegExp\<close> throws a \<^verbatim>\<open>SyntaxError\<close>, otherwise
  the number of matches), the clock \<^verbatim>\<open>Date.now()\<close>, and the Gmail HTTP API behind
  \<^verbatim>\<open>GmailClient.searchMessages\<close>. One request reads one time from the clock, and the API
  answers the same call in the same way throughout a request.
\<close>

record runtime =
  regexCount :: "string \<Rightarrow> string \<Rightarrow> nat option"
  dateNow :: int
  gmailApi :: "EmailAccount \<Rightarrow> string \<Rightarrow> int \<Rightarrow> error + EmailMessage list"

section \<open>Strings and the keyword pattern\<close>

definition upperChars :: string where
  "upperChars = ''ABCDEFGHIJKLMNOPQRSTUVWXYZ''"

definition lowerChars :: string where
  "lowerChars = ''abcdefghijklmnopqrstuvwxyz''"

definition digitChars :: string where
  "digitChars = ''0123456789''"

definition toLowerChar :: "char \<Rightarrow> char" where
  "toLowerChar c = (case map_of (zip upperChars lowerChars) c of Some l \<Rightarrow> l | None \<Rightarrow> c)"

definition toUpperChar :: "char \<Rightarrow> char" where
  "toUpperChar c = (case map_of (zip lowerChars upperChars) c of Some u \<Rightarrow> u | None \<Rightarrow> c)"

definition toLowerCase :: "string \<Rightarrow> string" where
  "toLowerCase s = map toLowerChar s"

text \<open>The class \<^verbatim>\<open>\w\<close> that decides \<^verbatim>\<open>\b\<close>: letters, digits and the underscore.\<close>

definition isWordChar :: "char \<Rightarrow> bool" where
  "isWordChar c \<longleftrightarrow> c \<in> set (upperChars @ lowerChars @ digitChars @ ''_'')"

definition wordBefore :: "char option \<Rightarrow> bool" where
  "wordBefore p = (case p of None \<Rightarrow> False | Some c \<Rightarrow> isWordChar c)"

definition wordAfter :: "string \<Rightarrow> bool" where
  "wordAfter t = (case t of [] \<Rightarrow> False | c # _ \<Rightarrow> isWordChar c)"

text \<open>\<^verbatim>\<open>\b\<close> holds between a word character and a non-word character (or an end).\<close>

definition wordBoundary :: "char option \<Rightarrow> string \<Rightarrow> bool" where
  "wordBoundary p t \<longleftrightarrow> wordBefore p \<noteq> wordAfter t"

text \<open>
  The characters with a meaning of their own in a pattern. A keyword without them is
  matched as plain text by \<^verbatim>\<open>new RegExp(`\\b${keyword}\\b`, 'gi')\<close>; the source does not
  escape the keyword, so any other keyword is a pattern for the engine.
\<close>

definition syntaxChars :: string where
  "syntaxChars = ''^$.*+?()[]{}|'' @ [CHR 0x5C]"

definition plainKeyword :: "string \<Rightarrow> bool" where
  "plainKeyword kw \<longleftrightarrow> (\<forall>c \<in> set kw. c \<notin> set syntaxChars)"

text \<open>
  Matching the keyword's characters at the head of the text under the \<^verbatim>\<open>i\<close> flag:
  the rest of the text and the last character consumed, when they all match.
\<close>

fun matchChars :: "string \<Rightarrow> char option \<Rightarrow> string \<Rightarrow> (char option \<times> string) option" where
  "matchChars [] p t = Some (p, t)"
| "matchChars (k # ks) p [] = None"
| "matchChars (k # ks) p (c # cs) =
     (if toUpperChar k = toUpperChar c then matchChars ks (Some c) cs else None)"

text \<open>\<^verbatim>\<open>\bkeyword\b\<close> at one position: \<open>p\<close> is the character before it, \<open>t\<close> the text from it.\<close>

definition matchHere :: "string \<Rightarrow> char option \<Rightarrow> string \<Rightarrow> bool" where
  "matchHere kw p t \<longleftrightarrow>
     wordBoundary p t \<and>
     (case matchChars kw p t of None \<Rightarrow> False | Some (q, r) \<Rightarrow> wordBoundary q r)"

text \<open>
  \<^verbatim>\<open>text.match(regex)\<close> with the \<^verbatim>\<open>g\<close> flag: all matches from left to right, each search
  starting where the last match ended (one further on after an empty match). \<open>skip\<close>
  counts the characters of the last match still to pass.
\<close>

fun scanMatches :: "string \<Rightarrow> nat \<Rightarrow> char option \<Rightarrow> string \<Rightarrow> nat" where
  "scanMatches kw skip p [] = (if skip = 0 \<and> matchHere kw p [] then 1 else 0)"
| "scanMatches kw skip p (c # cs) =
     (if 0 < skip then scanMatches kw (skip - 1) (Some c) cs
      else if matchHere kw p (c # cs) then 1 + scanMatches kw (length kw - 1) (Some c) cs
      else scanMatches kw 0 (Some c) cs)"

definition matchCount :: "runtime \<Rightarrow> string \<Rightarrow> string \<Rightarrow> nat option" where
  "matchCount rt kw text =
     (if plainKeyword kw then Some (scanMatches kw 0 None text) else regexCount rt kw text)"

section \<open>The classifier\<close>

definition DEFAULT_URGENT_KEYWORDS :: "string list" where
  "DEFAULT_URGENT_KEYWORDS =
     [''urgent'', ''asap'', ''critical'', ''emergency'', ''immediately'', ''rush'',
      ''time-sensitive'', ''deadline'', ''important'', ''high priority'',
      ''action required'', ''attention needed'']"

definition DEFAULT_IMPORTANT_KEYWORDS :: "string list" where
  "DEFAULT_IMPORTANT_KEYWORDS =
     [''meeting'', ''conference'', ''presentation'', ''proposal'', ''deal'',
      ''contract'', ''agreement'', ''approval'', ''review'', ''approval needed'',
      ''signature'', ''confirmation'', ''important'']"

definition quoted :: "string \<Rightarrow> string" where
  "quoted s = [CHR 0x22] @ s @ [CHR 0x22]"

definition urgentReason :: "string \<Rightarrow> string" where
  "urgentReason kw = ''Contains urgent keyword: '' @ quoted kw"

definition importantReason :: "string \<Rightarrow> string" where
  "importantReason kw = ''Contains important keyword: '' @ quoted kw"

text \<open>
  One keyword loop of \<^verbatim>\<open>classifyEmail\<close>: the score and the reasons so far go in and come
  out; a pattern the engine rejects throws out of the whole function.
\<close>

fun keywordLoop :: "runtime \<Rightarrow> (string \<Rightarrow> string) \<Rightarrow> string \<Rightarrow> string list
    \<Rightarrow> real \<times> string list \<Rightarrow> error + real \<times> string list" where
  "keywordLoop rt mk text [] acc = Inr acc"
| "keywordLoop rt mk text (kw # kws) (score, rs) =
     (case matchCount rt kw text of
        None \<Rightarrow> Inl (Error ''Invalid regular expression'')
      | Some n \<Rightarrow>
          if 0 < n
          then keywordLoop rt mk text kws (score + min (real n * 0.15) 0.5, rs @ [mk kw])
          else keywordLoop rt mk text kws (score, rs))"

definition urgentKeywords :: "EmailAccount \<Rightarrow> string list" where
  "urgentKeywords account =
     (if 0 < length (customUrgentKeywords account) then customUrgentKeywords account
      else DEFAULT_URGENT_KEYWORDS)"

definition importantKeywords :: "EmailAccount \<Rightarrow> string list" where
  "importantKeywords account =
     (if 0 < length (customImportantKeywords account) then customImportantKeywords account
      else DEFAULT_IMPORTANT_KEYWORDS)"

definition messageText :: "EmailMessage \<Rightarrow> string" where
  "messageText message = toLowerCase (subject message @ '' '' @ snippet message)"

definition daysSinceReceived :: "runtime \<Rightarrow> EmailMessage \<Rightarrow> real" where
  "daysSinceReceived rt message =
     real_of_int (dateNow rt - receivedAt message) / (1000 * 60 * 60 * 24)"

definition gmailFlagged :: "EmailMessage \<Rightarrow> EmailAccount \<Rightarrow> bool" where
  "gmailFlagged message account \<longleftrightarrow>
     provider account = Gmail \<and>
     (''IMPORTANT'' \<in> set (labels message) \<or> ''STARRED'' \<in> set (labels message))"

text \<open>
  The steps after the two keyword loops (unread, attachments, Gmail labels, recency), on
  the scores and reasons the loops left.
\<close>

definition signalSteps :: "runtime \<Rightarrow> EmailMessage \<Rightarrow> EmailAccount
    \<Rightarrow> real \<Rightarrow> real \<Rightarrow> string list \<Rightarrow> real \<times> real \<times> string list" where
  "signalSteps rt message account u0 i0 r0 =
     (let (u1, i1, r1) =
            (if \<not> isRead message then (u0 + 0.2, i0 + 0.1, r0 @ [''Email is unread''])
             else (u0, i0, r0));
          (i2, r2) =
            (if hasAttachments message then (i1 + 0.25, r1 @ [''Email has attachments''])
             else (i1, r1));
          (u3, i3, r3) =
            (if gmailFlagged message account
             then (min (u1 + 0.3) 1.0, min (i2 + 0.3) 1.0,
                   r2 @ [''Marked as important/starred in Gmail''])
             else (u1, i2, r2));
          (u4, r4) =
            (if daysSinceReceived rt message < 1
             then (u3 + 0.15, r3 @ [''Received within last 24 hours''])
             else (u3, r3))
      in (u4, i3, r4))"

text \<open>The \<^verbatim>\<open>return\<close> statement of \<^verbatim>\<open>classifyEmail\<close>.\<close>

definition classification :: "real \<times> real \<times> string list \<Rightarrow> Classification" where
  "classification s =
     (case s of (urgency, importance, rs) \<Rightarrow>
        \<lparr> isUrgent = (urgency \<ge> 0.3), isImportant = (importance \<ge> 0.3),
          urgencyScore = min urgency 1.0, importanceScore = min importance 1.0,
          reasons = rs \<rparr>)"

definition classifyEmail :: "runtime \<Rightarrow> EmailMessage \<Rightarrow> EmailAccount \<Rightarrow> error + Classification" where
  "classifyEmail rt message account =
     (case keywordLoop rt urgentReason (messageText message) (urgentKeywords account) (0, []) of
        Inl e \<Rightarrow> Inl e
      | Inr (u0, r0) \<Rightarrow>
          (case keywordLoop rt importantReason (messageText message)
                  (importantKeywords account) (0, r0) of
             Inl e \<Rightarrow> Inl e
           | Inr (i0, r1) \<Rightarrow> Inr (classification (signalSteps rt message account u0 i0 r1))))"

text \<open>
  Whether a keyword counts for a text: it has at least one match (and its pattern was
  accepted).
\<close>

definition keywordMatches :: "runtime \<Rightarrow> string \<Rightarrow> string \<Rightarrow> bool" where
  "keywordMatches rt text kw =
     (case matchCount rt kw text of None \<Rightarrow> False | Some n \<Rightarrow> 0 < n)"

subsection \<open>Whole-word occurrences, in the specification's words\<close>






section \<open>Stored state and the account registry\<close>

text \<open>A result of the search service, as the handlers receive it.\<close>

record ClassifiedEmail =
  ce_id :: string
  ce_accountId :: int
  ce_accountName :: string
  ce_subject :: string
  ce_from :: string
  ce_recipients :: "string list"
  ce_snippet :: string
  ce_receivedAt :: int
  ce_isRead :: bool
  ce_hasAttachments :: bool
  ce_isUrgent :: bool
  ce_isImportant :: bool
  ce_urgencyScore :: real
  ce_importanceScore :: real
  ce_importanceReason :: "string list"

text \<open>A row of \<^verbatim>\<open>email_search_results\<close>, without its key columns.\<close>

record CacheRow =
  search_query :: string
  row_subject :: string
  row_sender :: string
  row_recipients :: "string list"
  row_snippet :: string
  row_labels :: "string list"
  is_urgent :: bool
  is_important :: bool
  urgency_score :: real
  importance_score :: real
  importance_reason :: "string list"
  received_at :: int
  is_read :: bool
  has_attachments :: bool

text \<open>The calls made on provider clients, in order.\<close>

datatype ProviderCall =
    SearchCall int string int
  | UrgentCall int int

text \<open>
  The database and the outside world a request acts on. \<open>email_accounts\<close> lists the
  rows in the order of \<^verbatim>\<open>ORDER BY created_at DESC\<close> (newest first); \<open>nextRowid\<close> is
  the id \<^verbatim>\<open>AUTOINCREMENT\<close> gives next; \<open>email_search_results\<close> is the cache table,
  keyed by \<^verbatim>\<open>UNIQUE(account_id, message_id)\<close>; \<open>providerCalls\<close> records every call
  of a client's \<^verbatim>\<open>search\<close> or \<^verbatim>\<open>getUrgentEmails\<close>.
\<close>

record world =
  email_accounts :: "EmailAccount list"
  nextRowid :: int
  email_search_results :: "((int \<times> string) \<times> CacheRow) list"
  providerCalls :: "ProviderCall list"

definition getAccountById :: "world \<Rightarrow> int \<Rightarrow> EmailAccount option" where
  "getAccountById w i = find (\<lambda>a. acc_id a = i) (email_accounts w)"

definition listActiveAccounts :: "world \<Rightarrow> EmailAccount list" where
  "listActiveAccounts w = filter isActive (email_accounts w)"

text \<open>JavaScript truthiness of an optional string and of an optional number.\<close>

definition truthyS :: "string option \<Rightarrow> bool" where
  "truthyS v = (case v of None \<Rightarrow> False | Some s \<Rightarrow> s \<noteq> [])"

definition truthyN :: "int option \<Rightarrow> bool" where
  "truthyN v = (case v of None \<Rightarrow> False | Some n \<Rightarrow> n \<noteq> 0)"

record EmailAccountConfig =
  cfg_accountName :: string
  cfg_email :: string
  cfg_provider :: string
  cfg_providerConfig :: ProviderConfig
  cfg_defaultMailbox :: "string option"
  cfg_customUrgentKeywords :: "string list option"
  cfg_customImportantKeywords :: "string list option"

definition parseProvider :: "string \<Rightarrow> provider option" where
  "parseProvider s =
     (if s = ''gmail'' then Some Gmail else if s = ''imap'' then Some Imap else None)"

text \<open>
  \<^verbatim>\<open>EmailAccountService.addAccount\<close>: the \<^verbatim>\<open>INSERT\<close> with the table's
  \<^verbatim>\<open>CHECK(provider IN ('gmail', 'imap'))\<close> and \<^verbatim>\<open>UNIQUE\<close> on \<^verbatim>\<open>account_name\<close>, then
  \<^verbatim>\<open>getAccountById(result.lastInsertRowid)\<close>. The reversible encoding of the provider
  configuration is read back as it was written.
\<close>

definition addAccount :: "world \<Rightarrow> EmailAccountConfig \<Rightarrow> (error + EmailAccount) \<times> world" where
  "addAccount w config =
     (case parseProvider (cfg_provider config) of
        None \<Rightarrow> (Inl (Error ''CHECK constraint failed: provider IN ('gmail', 'imap')''), w)
      | Some prov \<Rightarrow>
          if \<exists>a \<in> set (email_accounts w). accountName a = cfg_accountName config
          then (Inl (Error (''Account name '' @ quoted (cfg_accountName config) @
                            '' already exists'')), w)
          else
            let row = \<lparr> acc_id = nextRowid w,
                        accountName = cfg_accountName config,
                        email = cfg_email config,
                        provider = prov,
                        providerConfig = cfg_providerConfig config,
                        isActive = True,
                        lastSyncAt = None,
                        syncError = None,
                        defaultMailbox =
                          (case cfg_defaultMailbox config of
                             None \<Rightarrow> ''INBOX''
                           | Some mb \<Rightarrow> if mb = [] then ''INBOX'' else mb),
                        includeSent = False,
                        includeArchived = False,
                        autoDetectPriority = True,
                        customUrgentKeywords =
                          (case cfg_customUrgentKeywords config of None \<Rightarrow> [] | Some ks \<Rightarrow> ks),
                        customImportantKeywords =
                          (case cfg_customImportantKeywords config of None \<Rightarrow> [] | Some ks \<Rightarrow> ks) \<rparr>;
                w' = w\<lparr> email_accounts := row # email_accounts w,
                        nextRowid := nextRowid w + 1 \<rparr>
            in (case getAccountById w' (nextRowid w) of
                  None \<Rightarrow> (Inl (Error ''Cannot read properties of null''), w')
                | Some account \<Rightarrow> (Inr account, w')))"

section \<open>Provider clients\<close>

text \<open>\<^verbatim>\<open>n || d\<close> on a number, and \<^verbatim>\<open>xs.slice(0, n)\<close>, which counts a negative \<open>n\<close> from the end.\<close>

definition numOr :: "int \<Rightarrow> int \<Rightarrow> int" where
  "numOr n d = (if n = 0 then d else n)"

definition slice0 :: "'a list \<Rightarrow> int \<Rightarrow> 'a list" where
  "slice0 xs n = (if n < 0 then take (nat (int (length xs) + n)) xs else take (nat n) xs)"

text \<open>
  \<^verbatim>\<open>GmailClient.search\<close> wraps whatever \<^verbatim>\<open>searchMessages\<close> throws; the HTTP exchange of
  \<^verbatim>\<open>searchMessages\<close> is the runtime's \<open>gmailApi\<close>.
\<close>

definition gmailSearch :: "runtime \<Rightarrow> EmailAccount \<Rightarrow> string \<Rightarrow> int \<Rightarrow> error + EmailMessage list" where
  "gmailSearch rt account q n =
     (case gmailApi rt account q (numOr n 10) of
        Inl (Error msg) \<Rightarrow> Inl (Error (''Gmail search error: '' @ msg))
      | Inr messages \<Rightarrow> Inr messages)"

text \<open>The loop \<^verbatim>\<open>if (!seen.has(msg.id)) { seen.add(msg.id); allMessages.push(msg) }\<close>.\<close>

fun collectById :: "EmailMessage list \<Rightarrow> EmailMessage list \<times> string set
    \<Rightarrow> EmailMessage list \<times> string set" where
  "collectById [] acc = acc"
| "collectById (msg # msgs) (allMessages, seenIds) =
     (if msg_id msg \<in> seenIds then collectById msgs (allMessages, seenIds)
      else collectById msgs (allMessages @ [msg], insert (msg_id msg) seenIds))"

text \<open>The loop over the queries of \<^verbatim>\<open>getUrgentEmails\<close>; a query that throws is skipped.\<close>

fun collectQueries :: "(string \<Rightarrow> error + EmailMessage list) \<Rightarrow> string list
    \<Rightarrow> EmailMessage list \<times> string set \<Rightarrow> EmailMessage list \<times> string set" where
  "collectQueries search [] acc = acc"
| "collectQueries search (q # qs) acc =
     (case search q of
        Inl e \<Rightarrow> collectQueries search qs acc
      | Inr messages \<Rightarrow> collectQueries search qs (collectById messages acc))"

definition gmailGetUrgentEmails :: "runtime \<Rightarrow> EmailAccount \<Rightarrow> int \<Rightarrow> EmailMessage list" where
  "gmailGetUrgentEmails rt account n =
     slice0 (fst (collectQueries (\<lambda>q. gmailSearch rt account q n)
                    [''is:important'', ''label:important'', ''is:starred'', ''has:red-star'',
                     ''in:inbox newer_than:1d'']
                    ([], {}))) n"

text \<open>The IMAP client of the source is a placeholder: \<^verbatim>\<open>searchWithImap\<close> returns no message.\<close>

definition searchWithImap :: "string \<Rightarrow> string \<Rightarrow> EmailMessage list" where
  "searchWithImap mailbox q = []"

definition imapSearch :: "EmailAccount \<Rightarrow> string \<Rightarrow> int \<Rightarrow> string option \<Rightarrow> error + EmailMessage list" where
  "imapSearch account q n mailbox =
     (let mb = (case mailbox of
                  Some b \<Rightarrow> if b \<noteq> [] then b
                            else if defaultMailbox account \<noteq> [] then defaultMailbox account
                            else ''INBOX''
                | None \<Rightarrow> if defaultMailbox account \<noteq> [] then defaultMailbox account
                          else ''INBOX'')
      in Inr (slice0 (searchWithImap mb q) (numOr n 10)))"

definition imapGetUrgentEmails :: "EmailAccount \<Rightarrow> int \<Rightarrow> EmailMessage list" where
  "imapGetUrgentEmails account n =
     slice0 (fst (collectQueries (\<lambda>q. imapSearch account q (n * 2) (Some ''INBOX''))
                    [''FLAGGED'', ''ALL'', ''UNSEEN''] ([], {}))) n"

text \<open>\<^verbatim>\<open>EmailClientFactory.createClient\<close> and the call on the client it returns.\<close>

definition clientSearch :: "runtime \<Rightarrow> EmailAccount \<Rightarrow> string \<Rightarrow> int \<Rightarrow> error + EmailMessage list" where
  "clientSearch rt account q n =
     (case provider account of
        Gmail \<Rightarrow> gmailSearch rt account q n
      | Imap \<Rightarrow> imapSearch account q n None)"

definition clientGetUrgentEmails :: "runtime \<Rightarrow> EmailAccount \<Rightarrow> int \<Rightarrow> EmailMessage list" where
  "clientGetUrgentEmails rt account n =
     (case provider account of
        Gmail \<Rightarrow> gmailGetUrgentEmails rt account n
      | Imap \<Rightarrow> imapGetUrgentEmails account n)"

section \<open>The search service\<close>

record SearchCriteria =
  query :: string
  accounts :: "int list option"
  mailboxes :: "string list option"
  maxResults :: "int option"
  minUrgencyScore :: "real option"
  minImportanceScore :: "real option"

text \<open>An integer as a template string prints it.\<close>

fun digitsOf :: "nat \<Rightarrow> string" where
  "digitsOf n =
     (if n < 10 then [digitChars ! n] else digitsOf (n div 10) @ [digitChars ! (n mod 10)])"

declare digitsOf.simps [simp del]

definition showInt :: "int \<Rightarrow> string" where
  "showInt i = (if i < 0 then ''-'' @ digitsOf (nat (- i)) else digitsOf (nat i))"

text \<open>The key \<^verbatim>\<open>`${account.id}:${msg.id}`\<close> of the \<^verbatim>\<open>seen\<close> set.\<close>

definition resultKey :: "int \<Rightarrow> string \<Rightarrow> string" where
  "resultKey accountId messageId = showInt accountId @ '':'' @ messageId"

definition classified :: "EmailAccount \<Rightarrow> EmailMessage \<Rightarrow> Classification \<Rightarrow> ClassifiedEmail" where
  "classified account msg c =
     \<lparr> ce_id = msg_id msg,
       ce_accountId = acc_id account,
       ce_accountName = accountName account,
       ce_subject = subject msg,
       ce_from = sender msg,
       ce_recipients = recipients msg,
       ce_snippet = snippet msg,
       ce_receivedAt = receivedAt msg,
       ce_isRead = isRead msg,
       ce_hasAttachments = hasAttachments msg,
       ce_isUrgent = isUrgent c,
       ce_isImportant = isImportant c,
       ce_urgencyScore = urgencyScore c,
       ce_importanceScore = importanceScore c,
       ce_importanceReason = reasons c \<rparr>"

text \<open>
  \<^verbatim>\<open>cacheSearchResult\<close>: \<^verbatim>\<open>INSERT OR REPLACE\<close> removes the row with the same
  \<^verbatim>\<open>(account_id, message_id)\<close> and adds the new one. The source catches a failing
  write and goes on; the write is taken to succeed here.
\<close>

definition cacheSearchResult :: "int \<Rightarrow> EmailMessage \<Rightarrow> Classification
    \<Rightarrow> ((int \<times> string) \<times> CacheRow) list \<Rightarrow> ((int \<times> string) \<times> CacheRow) list" where
  "cacheSearchResult accountId message c rows =
     filter (\<lambda>r. fst r \<noteq> (accountId, msg_id message)) rows @
     [((accountId, msg_id message),
       \<lparr> search_query = [],
         row_subject = subject message,
         row_sender = sender message,
         row_recipients = recipients message,
         row_snippet = snippet message,
         row_labels = labels message,
         is_urgent = isUrgent c,
         is_important = isImportant c,
         urgency_score = urgencyScore c,
         importance_score = importanceScore c,
         importance_reason = reasons c,
         received_at = receivedAt message,
         is_read = isRead message,
         has_attachments = hasAttachments message \<rparr>)]"

text \<open>What the two loops of \<^verbatim>\<open>searchEmails\<close> change.\<close>

record fanout =
  allResults :: "ClassifiedEmail list"
  seen :: "string set"
  cacheRows :: "((int \<times> string) \<times> CacheRow) list"
  calls :: "ProviderCall list"

text \<open>
  The inner loop over one account's messages. It runs inside the account's \<^verbatim>\<open>try\<close>: when
  \<^verbatim>\<open>classifyEmail\<close> throws, the key is already in \<^verbatim>\<open>seen\<close> and the rest of the account's
  messages are left out.
\<close>

fun classifyMessages :: "runtime \<Rightarrow> EmailAccount \<Rightarrow> EmailMessage list \<Rightarrow> fanout \<Rightarrow> fanout" where
  "classifyMessages rt account [] st = st"
| "classifyMessages rt account (msg # msgs) st =
     (let key = resultKey (acc_id account) (msg_id msg) in
      if key \<in> seen st then classifyMessages rt account msgs st
      else
        (case classifyEmail rt msg account of
           Inl e \<Rightarrow> st\<lparr> seen := insert key (seen st) \<rparr>
         | Inr c \<Rightarrow>
             classifyMessages rt account msgs
               (st\<lparr> seen := insert key (seen st),
                    cacheRows := cacheSearchResult (acc_id account) msg c (cacheRows st),
                    allResults := allResults st @ [classified account msg c] \<rparr>)))"

text \<open>The outer loop: an account whose search throws is logged and passed over.\<close>

fun searchAccounts :: "runtime \<Rightarrow> string \<Rightarrow> int \<Rightarrow> EmailAccount list \<Rightarrow> fanout \<Rightarrow> fanout" where
  "searchAccounts rt q n [] st = st"
| "searchAccounts rt q n (account # rest) st =
     (let st' = st\<lparr> calls := calls st @ [SearchCall (acc_id account) q (n * 2)] \<rparr> in
      case clientSearch rt account q (n * 2) of
        Inl e \<Rightarrow> searchAccounts rt q n rest st'
      | Inr messages \<Rightarrow> searchAccounts rt q n rest (classifyMessages rt account messages st'))"

definition accountsToSearch :: "world \<Rightarrow> int list option \<Rightarrow> EmailAccount list" where
  "accountsToSearch w ids =
     (case ids of
        Some is \<Rightarrow> List.map_filter (getAccountById w) is
      | None \<Rightarrow> listActiveAccounts w)"

definition rankScore :: "ClassifiedEmail \<Rightarrow> real" where
  "rankScore e = ce_urgencyScore e * 2 + ce_importanceScore e"

text \<open>
  \<^verbatim>\<open>allResults.sort((a, b) => bScore - aScore)\<close>: the stable sort of the language, highest
  score first.
\<close>

definition sortByScore :: "ClassifiedEmail list \<Rightarrow> ClassifiedEmail list" where
  "sortByScore xs = sort_key (\<lambda>e. - rankScore e) xs"

text \<open>Both loops of \<^verbatim>\<open>searchEmails\<close>, from the empty result list and the empty \<^verbatim>\<open>seen\<close> set.\<close>

definition fanOut :: "runtime \<Rightarrow> world \<Rightarrow> string \<Rightarrow> int \<Rightarrow> EmailAccount list \<Rightarrow> fanout" where
  "fanOut rt w q n targets =
     searchAccounts rt q n targets
       \<lparr> allResults = [], seen = {},
         cacheRows = email_search_results w, calls = providerCalls w \<rparr>"

text \<open>The default of the destructuring \<^verbatim>\<open>maxResults = 50\<close>.\<close>

definition resultLimit :: "SearchCriteria \<Rightarrow> int" where
  "resultLimit criteria = (case maxResults criteria of None \<Rightarrow> 50 | Some m \<Rightarrow> m)"

definition searchEmails :: "runtime \<Rightarrow> world \<Rightarrow> SearchCriteria
    \<Rightarrow> (error + ClassifiedEmail list) \<times> world" where
  "searchEmails rt w criteria =
     (let n = resultLimit criteria;
          targets = accountsToSearch w (accounts criteria)
      in if length targets = 0
         then (Inl (Error ''No email accounts available for search''), w)
         else
           let st = fanOut rt w (query criteria) n targets
           in (Inr (slice0 (sortByScore (allResults st)) n),
               w\<lparr> email_search_results := cacheRows st, providerCalls := calls st \<rparr>))"

subsection \<open>Deduplication, in the specification's words\<close>

text \<open>
  The messages the accounts return, each with its account, in the order of the fan-out;
  an account whose search throws contributes none.
\<close>

definition fanStream :: "runtime \<Rightarrow> string \<Rightarrow> int \<Rightarrow> EmailAccount list
    \<Rightarrow> (EmailAccount \<times> EmailMessage) list" where
  "fanStream rt q n targets =
     concat (map (\<lambda>account.
                    case clientSearch rt account q (n * 2) of
                      Inl e \<Rightarrow> []
                    | Inr messages \<Rightarrow> map (Pair account) messages) targets)"

text \<open>An account is reachable for a search when its client's \<^verbatim>\<open>search\<close> does not throw.\<close>

definition reachable :: "runtime \<Rightarrow> string \<Rightarrow> int \<Rightarrow> EmailAccount \<Rightarrow> bool" where
  "reachable rt q n account =
     (case clientSearch rt account q (n * 2) of Inl e \<Rightarrow> False | Inr messages \<Rightarrow> True)"

definition searchStream :: "runtime \<Rightarrow> world \<Rightarrow> SearchCriteria
    \<Rightarrow> (EmailAccount \<times> EmailMessage) list" where
  "searchStream rt w criteria =
     fanStream rt (query criteria) (resultLimit criteria)
       (accountsToSearch w (accounts criteria))"

text \<open>
  The specification deduplicates by the composite key (account id, provider-native
  message id), the first occurrence winning. \<open>keepFirst\<close> is written from that
  sentence, to be compared with what the loops of the source leave in \<^verbatim>\<open>allResults\<close>.
\<close>

definition compositeKey :: "EmailAccount \<times> EmailMessage \<Rightarrow> int \<times> string" where
  "compositeKey am = (acc_id (fst am), msg_id (snd am))"

definition resultKeyOf :: "ClassifiedEmail \<Rightarrow> int \<times> string" where
  "resultKeyOf e = (ce_accountId e, ce_id e)"

fun keepFirst :: "(int \<times> string) set \<Rightarrow> (EmailAccount \<times> EmailMessage) list
    \<Rightarrow> (EmailAccount \<times> EmailMessage) list" where
  "keepFirst S [] = []"
| "keepFirst S (am # rest) =
     (if compositeKey am \<in> S then keepFirst S rest
      else am # keepFirst (insert (compositeKey am) S) rest)"

text \<open>The string key of a composite key, and the invariant of the two loops: no two
  results share a key, and the key of every result is in \<^verbatim>\<open>seen\<close>.\<close>

definition keyString :: "int \<times> string \<Rightarrow> string" where
  "keyString k = resultKey (fst k) (snd k)"

definition uniqueResults :: "fanout \<Rightarrow> bool" where
  "uniqueResults st \<longleftrightarrow>
     distinct (map resultKeyOf (allResults st)) \<and>
     (\<forall>e \<in> set (allResults st). keyString (resultKeyOf e) \<in> seen st)"

text \<open>A classified result is the classification of a message of an account.\<close>

definition resultOf :: "runtime \<Rightarrow> ClassifiedEmail \<Rightarrow> EmailAccount \<times> EmailMessage \<Rightarrow> bool" where
  "resultOf rt e am \<longleftrightarrow>
     (case classifyEmail rt (snd am) (fst am) of
        Inl err \<Rightarrow> False
      | Inr c \<Rightarrow> e = classified (fst am) (snd am) c)"

text \<open>What the loops of \<^verbatim>\<open>getUrgentAndImportantEmails\<close> change.\<close>

record buckets =
  urgentEmails :: "ClassifiedEmail list"
  importantEmails :: "ClassifiedEmail list"
  seenKeys :: "string set"
  fetchCalls :: "ProviderCall list"

fun bucketMessages :: "runtime \<Rightarrow> EmailAccount \<Rightarrow> EmailMessage list \<Rightarrow> buckets \<Rightarrow> buckets" where
  "bucketMessages rt account [] st = st"
| "bucketMessages rt account (msg # msgs) st =
     (let key = resultKey (acc_id account) (msg_id msg) in
      if key \<in> seenKeys st then bucketMessages rt account msgs st
      else
        (case classifyEmail rt msg account of
           Inl e \<Rightarrow> st\<lparr> seenKeys := insert key (seenKeys st) \<rparr>
         | Inr c \<Rightarrow>
             bucketMessages rt account msgs
               (st\<lparr> seenKeys := insert key (seenKeys st),
                    urgentEmails :=
                      (if isUrgent c then urgentEmails st @ [classified account msg c]
                       else urgentEmails st),
                    importantEmails :=
                      (if isImportant c then importantEmails st @ [classified account msg c]
                       else importantEmails st) \<rparr>)))"

fun fetchAccounts :: "runtime \<Rightarrow> int \<Rightarrow> EmailAccount list \<Rightarrow> buckets \<Rightarrow> buckets" where
  "fetchAccounts rt n [] st = st"
| "fetchAccounts rt n (account # rest) st =
     fetchAccounts rt n rest
       (bucketMessages rt account (clientGetUrgentEmails rt account (n * 2))
          (st\<lparr> fetchCalls := fetchCalls st @ [UrgentCall (acc_id account) (n * 2)] \<rparr>))"

definition getUrgentAndImportantEmails :: "runtime \<Rightarrow> world \<Rightarrow> int
    \<Rightarrow> (error + ClassifiedEmail list \<times> ClassifiedEmail list) \<times> world" where
  "getUrgentAndImportantEmails rt w n =
     (let active = listActiveAccounts w
      in if length active = 0
         then (Inl (Error ''No email accounts configured''), w)
         else
           let st = fetchAccounts rt n active
                      \<lparr> urgentEmails = [], importantEmails = [], seenKeys = {},
                        fetchCalls = providerCalls w \<rparr>
           in (Inr (slice0 (sort_key (\<lambda>e. - ce_urgencyScore e) (urgentEmails st)) n,
                    slice0 (sort_key (\<lambda>e. - ce_importanceScore e) (importantEmails st)) n),
               w\<lparr> providerCalls := fetchCalls st \<rparr>))"

section \<open>The tool handlers\<close>

text \<open>
  The handlers of \<^verbatim>\<open>createEmailToolsHandlers\<close> on the parameters of a tool call; a field
  the caller left out is \<open>None\<close>. A response carries the results themselves; printing
  each score with \<^verbatim>\<open>toFixed(2)\<close> and choosing the fields shown are left out.
\<close>

record AddAccountParams =
  p_accountName :: "string option"
  p_email :: "string option"
  p_provider :: "string option"
  p_refreshToken :: "string option"
  p_host :: "string option"
  p_port :: "int option"
  p_username :: "string option"
  p_password :: "string option"
  p_defaultMailbox :: "string option"
  p_customUrgentKeywords :: "string list option"
  p_customImportantKeywords :: "string list option"

record AddAccountResponse =
  r_accountId :: int
  r_accountName :: string
  r_email :: string
  r_provider :: provider
  r_message :: string

definition optString :: "string option \<Rightarrow> string" where
  "optString v = (case v of None \<Rightarrow> [] | Some s \<Rightarrow> s)"

definition addEmailAccount :: "world \<Rightarrow> AddAccountParams \<Rightarrow> (error + AddAccountResponse) \<times> world" where
  "addEmailAccount w params =
     (if \<not> truthyS (p_accountName params) \<or> \<not> truthyS (p_email params) \<or>
         \<not> truthyS (p_provider params)
      then (Inl (Error ''Missing required fields: accountName, email, provider''), w)
      else if p_provider params = Some ''gmail'' \<and> \<not> truthyS (p_refreshToken params)
      then (Inl (Error ''Gmail provider requires refreshToken''), w)
      else if p_provider params = Some ''imap'' \<and>
              (\<not> truthyS (p_host params) \<or> \<not> truthyN (p_port params) \<or>
               \<not> truthyS (p_username params) \<or> \<not> truthyS (p_password params))
      then (Inl (Error ''IMAP provider requires host, port, username, password''), w)
      else
        let config =
              \<lparr> cfg_accountName = optString (p_accountName params),
                cfg_email = optString (p_email params),
                cfg_provider = optString (p_provider params),
                cfg_providerConfig =
                  (if p_provider params = Some ''gmail''
                   then GmailConfig (p_refreshToken params)
                   else ImapConfig (p_host params) (p_port params) (p_username params)
                          (p_password params) True),
                cfg_defaultMailbox = p_defaultMailbox params,
                cfg_customUrgentKeywords = p_customUrgentKeywords params,
                cfg_customImportantKeywords = p_customImportantKeywords params \<rparr>
        in (case addAccount w config of
              (Inl e, w') \<Rightarrow> (Inl e, w')
            | (Inr account, w') \<Rightarrow>
                (Inr \<lparr> r_accountId = acc_id account,
                       r_accountName = accountName account,
                       r_email = email account,
                       r_provider = provider account,
                       r_message = ''Email account '' @ quoted (optString (p_accountName params)) @
                                   '' added successfully'' \<rparr>, w')))"

record SearchParams =
  sp_query :: "string option"
  sp_accounts :: "int list option"
  sp_mailboxes :: "string list option"
  sp_maxResults :: "int option"
  sp_minUrgencyScore :: "real option"
  sp_minImportanceScore :: "real option"

text \<open>
  The filter of the search handler: a floor that is absent or zero is not applied.
\<close>

definition aboveFloors :: "real option \<Rightarrow> real option \<Rightarrow> ClassifiedEmail \<Rightarrow> bool" where
  "aboveFloors minU minI e \<longleftrightarrow>
     (case minU of None \<Rightarrow> True | Some u \<Rightarrow> \<not> (u \<noteq> 0 \<and> ce_urgencyScore e < u)) \<and>
     (case minI of None \<Rightarrow> True | Some i \<Rightarrow> \<not> (i \<noteq> 0 \<and> ce_importanceScore e < i))"

definition searchEmailsHandler :: "runtime \<Rightarrow> world \<Rightarrow> SearchParams
    \<Rightarrow> (error + ClassifiedEmail list) \<times> world" where
  "searchEmailsHandler rt w params =
     (let n = (case sp_maxResults params of None \<Rightarrow> 50 | Some m \<Rightarrow> m)
      in if \<not> truthyS (sp_query params)
         then (Inl (Error ''Missing required field: query''), w)
         else if n > 500
         then (Inl (Error ''maxResults cannot exceed 500''), w)
         else
           (case searchEmails rt w
                   \<lparr> query = optString (sp_query params),
                     accounts = sp_accounts params,
                     mailboxes = sp_mailboxes params,
                     maxResults = Some n,
                     minUrgencyScore = sp_minUrgencyScore params,
                     minImportanceScore = sp_minImportanceScore params \<rparr> of
              (Inl e, w') \<Rightarrow> (Inl e, w')
            | (Inr results, w') \<Rightarrow>
                (Inr (filter (aboveFloors (sp_minUrgencyScore params)
                                (sp_minImportanceScore params)) results), w')))"

record UrgentParams =
  up_maxResults :: "int option"
  up_accounts :: "int list option"
  up_onlyUnread :: "bool option"

definition getUrgentEmailsHandler :: "runtime \<Rightarrow> world \<Rightarrow> UrgentParams
    \<Rightarrow> (error + ClassifiedEmail list \<times> ClassifiedEmail list) \<times> world" where
  "getUrgentEmailsHandler rt w params =
     (let n = (case up_maxResults params of None \<Rightarrow> 20 | Some m \<Rightarrow> m);
          onlyUnread = (case up_onlyUnread params of None \<Rightarrow> False | Some b \<Rightarrow> b)
      in if n > 500
         then (Inl (Error ''maxResults cannot exceed 500''), w)
         else
           (case getUrgentAndImportantEmails rt w n of
              (Inl e, w') \<Rightarrow> (Inl e, w')
            | (Inr (urgent, important), w') \<Rightarrow>
                (Inr (if onlyUnread then filter (\<lambda>e. \<not> ce_isRead e) urgent else urgent,
                      if onlyUnread then filter (\<lambda>e. \<not> ce_isRead e) important else important),
                 w')))"

section \<open>Example inputs\<close>

text \<open>
  A runtime whose engine rejects every pattern that is not plain text and whose Gmail
  API refuses account 1 and returns two messages for any other account; three Gmail
  accounts; and the messages of the scenarios.
\<close>

definition asapMessage :: EmailMessage where
  "asapMessage =
     \<lparr> msg_id = ''m1'', subject = ''Need this ASAP please'', sender = ''boss@example.com'',
       recipients = [''me@example.com''], body = [], snippet = ''see the deal'',
       receivedAt = 1700000000000, isRead = True, hasAttachments = False, labels = [] \<rparr>"

definition noteMessage :: EmailMessage where
  "noteMessage =
     \<lparr> msg_id = ''m2'', subject = ''Lunch'', sender = ''friend@example.com'',
       recipients = [''me@example.com''], body = [], snippet = ''at noon'',
       receivedAt = 1700000000000, isRead = True, hasAttachments = False, labels = [] \<rparr>"

definition exampleRuntime :: runtime where
  "exampleRuntime =
     \<lparr> regexCount = (\<lambda>kw text. None),
       dateNow = 1700500000000,
       gmailApi = (\<lambda>account q n.
          if acc_id account = 1 then Inl (Error ''401 Unauthorized'')
          else Inr [noteMessage, asapMessage]) \<rparr>"

definition failingAccount :: EmailAccount where
  "failingAccount =
     \<lparr> acc_id = 1, accountName = ''Old'', email = ''old@example.com'', provider = Gmail,
       providerConfig = GmailConfig (Some ''expired''), isActive = True,
       lastSyncAt = None, syncError = None, defaultMailbox = ''INBOX'',
       includeSent = False, includeArchived = False, autoDetectPriority = True,
       customUrgentKeywords = [''asap''], customImportantKeywords = [''deal''] \<rparr>"

definition workAccount :: EmailAccount where
  "workAccount =
     \<lparr> acc_id = 2, accountName = ''Work'', email = ''me@example.com'', provider = Gmail,
       providerConfig = GmailConfig (Some ''token-2''), isActive = True,
       lastSyncAt = None, syncError = None, defaultMailbox = ''INBOX'',
       includeSent = False, includeArchived = False, autoDetectPriority = True,
       customUrgentKeywords = [''asap''], customImportantKeywords = [''deal''] \<rparr>"

definition homeAccount :: EmailAccount where
  "homeAccount =
     \<lparr> acc_id = 3, accountName = ''Home'', email = ''me@example.org'', provider = Gmail,
       providerConfig = GmailConfig (Some ''token-3''), isActive = True,
       lastSyncAt = None, syncError = None, defaultMailbox = ''INBOX'',
       includeSent = False, includeArchived = False, autoDetectPriority = True,
       customUrgentKeywords = [''lunch''], customImportantKeywords = [''deal''] \<rparr>"

definition exampleWorld :: world where
  "exampleWorld =
     \<lparr> email_accounts = [homeAccount, workAccount, failingAccount], nextRowid = 4,
       email_search_results = [], providerCalls = [] \<rparr>"

definition exampleCriteria :: SearchCriteria where
  "exampleCriteria =
     \<lparr> query = ''deal'', accounts = None, mailboxes = None, maxResults = Some 10,
       minUrgencyScore = None, minImportanceScore = None \<rparr>"



definition imapParams :: AddAccountParams where
  "imapParams =
     \<lparr> p_accountName = Some ''Office'', p_email = Some ''me@office.example'',
       p_provider = Some ''imap'', p_refreshToken = None,
       p_host = Some ''imap.office.example'', p_port = Some 993,
       p_username = Some ''me'', p_password = Some ''secret'',
       p_defaultMailbox = None, p_customUrgentKeywords = None,
       p_customImportantKeywords = None \<rparr>"

definition searchParams :: SearchParams where
  "searchParams =
     \<lparr> sp_query = Some ''deal'', sp_accounts = None, sp_mailboxes = None,
       sp_maxResults = Some 501, sp_minUrgencyScore = None, sp_minImportanceScore = None \<rparr>"

definition urgentParams :: UrgentParams where
  "urgentParams = \<lparr> up_maxResults = None, up_accounts = None, up_onlyUnread = None \<rparr>"

section \<open>The keyword pattern and whole words\<close>








lemma matchCount_cong:
  "regexCount rt = regexCount rt' \<Longrightarrow> matchCount rt kw text = matchCount rt' kw text"
  by (simp add: matchCount_def)

lemma keywordMatches_Some:
  "matchCount rt kw text = Some n \<Longrightarrow> keywordMatches rt text kw = (0 < n)"
  by (simp add: keywordMatches_def)

section \<open>The keyword loops\<close>

lemma keywordLoop_nonneg:
  "keywordLoop rt mk text kws (s, rs) = Inr (s', rs') \<Longrightarrow> 0 \<le> s \<Longrightarrow> 0 \<le> s'"
proof (induction kws arbitrary: s rs)
  case Nil then show ?case by simp
next
  case (Cons kw kws)
  show ?case
  proof (cases "matchCount rt kw text")
    case None
    with Cons.prems show ?thesis by simp
  next
    case (Some n)
    show ?thesis
    proof (cases "0 < n")
      case True
      have "0 \<le> s + min (real n * 0.15) 0.5" using Cons.prems(2) by simp
      moreover have "keywordLoop rt mk text kws (s + min (real n * 0.15) 0.5, rs @ [mk kw]) =
          Inr (s', rs')"
        using Cons.prems(1) Some True by simp
      ultimately show ?thesis using Cons.IH by blast
    next
      case False
      then have "keywordLoop rt mk text kws (s, rs) = Inr (s', rs')"
        using Cons.prems(1) Some by simp
      then show ?thesis using Cons.IH Cons.prems(2) by blast
    qed
  qed
qed

lemma keywordLoop_counts:
  assumes "\<forall>kw \<in> set kws. matchCount rt kw text = Some (cnt kw)"
  shows "keywordLoop rt mk text kws (s, rs) =
           Inr (s + (\<Sum>kw\<leftarrow>kws. min (real (cnt kw) * 0.15) 0.5),
                rs @ map mk (filter (\<lambda>kw. 0 < cnt kw) kws))"
  using assms
proof (induction kws arbitrary: s rs)
  case Nil then show ?case by simp
next
  case (Cons kw kws)
  then show ?case by (cases "0 < cnt kw") (simp_all add: add.assoc)
qed

lemma keywordLoop_reasons:
  "keywordLoop rt mk text kws (s, rs) = Inr (s', rs') \<Longrightarrow>
     rs' = rs @ map mk (filter (keywordMatches rt text) kws)"
proof (induction kws arbitrary: s rs)
  case Nil then show ?case by simp
next
  case (Cons kw kws)
  show ?case
  proof (cases "matchCount rt kw text")
    case None
    with Cons.prems show ?thesis by simp
  next
    case (Some n)
    note m = keywordMatches_Some [OF Some]
    show ?thesis
    proof (cases "0 < n")
      case True
      then have "keywordLoop rt mk text kws (s + min (real n * 0.15) 0.5, rs @ [mk kw]) =
          Inr (s', rs')"
        using Cons.prems Some by simp
      then have "rs' = (rs @ [mk kw]) @ map mk (filter (keywordMatches rt text) kws)"
        by (rule Cons.IH)
      then show ?thesis using m True by simp
    next
      case False
      then have "keywordLoop rt mk text kws (s, rs) = Inr (s', rs')"
        using Cons.prems Some by simp
      then have "rs' = rs @ map mk (filter (keywordMatches rt text) kws)"
        by (rule Cons.IH)
      then show ?thesis using m False by simp
    qed
  qed
qed

lemma keywordLoop_cong:
  "regexCount rt = regexCount rt' \<Longrightarrow>
     keywordLoop rt mk text kws acc = keywordLoop rt' mk text kws acc"
proof (induction kws arbitrary: acc)
  case Nil then show ?case by simp
next
  case (Cons kw kws)
  obtain s rs where acc: "acc = (s, rs)" by (cases acc)
  show ?case
    using Cons.IH [OF Cons.prems] matchCount_cong [OF Cons.prems, of kw "text"]
    unfolding acc by (simp split: option.splits)
qed

section \<open>The classifier\<close>

lemma signalSteps_nonneg:
  "0 \<le> u0 \<Longrightarrow> 0 \<le> fst (signalSteps rt m a u0 i0 r0)"
  "0 \<le> i0 \<Longrightarrow> 0 \<le> fst (snd (signalSteps rt m a u0 i0 r0))"
  by (cases "isRead m"; cases "hasAttachments m"; cases "gmailFlagged m a";
      cases "daysSinceReceived rt m < 1"; simp add: signalSteps_def)+


lemma signalSteps_reasons:
  "snd (snd (signalSteps rt m a u0 i0 r0)) =
     r0 @ (if isRead m then [] else [''Email is unread''])
        @ (if hasAttachments m then [''Email has attachments''] else [])
        @ (if gmailFlagged m a then [''Marked as important/starred in Gmail''] else [])
        @ (if daysSinceReceived rt m < 1 then [''Received within last 24 hours''] else [])"
  by (cases "isRead m"; cases "hasAttachments m"; cases "gmailFlagged m a";
      cases "daysSinceReceived rt m < 1"; simp add: signalSteps_def)

lemma signalSteps_cong:
  assumes "dateNow rt = dateNow rt'" "isRead m = isRead m'"
    "hasAttachments m = hasAttachments m'" "labels m = labels m'"
    "receivedAt m = receivedAt m'" "provider a = provider a'"
  shows "signalSteps rt m a u i r = signalSteps rt' m' a' u i r"
  using assms by (simp add: signalSteps_def gmailFlagged_def daysSinceReceived_def)

lemma classification_flags:
  "isUrgent (classification s) \<longleftrightarrow> 0.3 \<le> urgencyScore (classification s)"
  "isImportant (classification s) \<longleftrightarrow> 0.3 \<le> importanceScore (classification s)"
  by (cases s; simp add: classification_def)+

lemma classification_scores:
  "urgencyScore (classification s) = min (fst s) 1"
  "importanceScore (classification s) = min (fst (snd s)) 1"
  "reasons (classification s) = snd (snd s)"
  by (cases s; simp add: classification_def)+

lemma classifyEmail_Inr:
  assumes "classifyEmail rt m a = Inr c"
  obtains u0 r0 i0 r1 where
    "keywordLoop rt urgentReason (messageText m) (urgentKeywords a) (0, []) = Inr (u0, r0)"
    "keywordLoop rt importantReason (messageText m) (importantKeywords a) (0, r0) = Inr (i0, r1)"
    "c = classification (signalSteps rt m a u0 i0 r1)"
  using assms unfolding classifyEmail_def
  by (auto split: sum.splits prod.splits)

lemma classifyEmail_reasons:
  assumes "classifyEmail rt m a = Inr c"
  shows "reasons c =
       map urgentReason (filter (keywordMatches rt (messageText m)) (urgentKeywords a)) @
       map importantReason (filter (keywordMatches rt (messageText m)) (importantKeywords a)) @
       (if isRead m then [] else [''Email is unread'']) @
       (if hasAttachments m then [''Email has attachments''] else []) @
       (if gmailFlagged m a then [''Marked as important/starred in Gmail''] else []) @
       (if daysSinceReceived rt m < 1 then [''Received within last 24 hours''] else [])"
proof -
  from assms obtain u0 r0 i0 r1 where
    u: "keywordLoop rt urgentReason (messageText m) (urgentKeywords a) (0, []) = Inr (u0, r0)" and
    i: "keywordLoop rt importantReason (messageText m) (importantKeywords a) (0, r0) =
          Inr (i0, r1)" and
    c: "c = classification (signalSteps rt m a u0 i0 r1)"
    by (rule classifyEmail_Inr)
  have "r0 = map urgentReason (filter (keywordMatches rt (messageText m)) (urgentKeywords a))"
    using keywordLoop_reasons [OF u] by simp
  moreover have "r1 = r0 @ map importantReason
      (filter (keywordMatches rt (messageText m)) (importantKeywords a))"
    using keywordLoop_reasons [OF i] .
  ultimately have "r1 =
       map urgentReason (filter (keywordMatches rt (messageText m)) (urgentKeywords a)) @
       map importantReason (filter (keywordMatches rt (messageText m)) (importantKeywords a))"
    by (simp only:)
  then show ?thesis
    by (simp only: c classification_scores signalSteps_reasons append_assoc)
qed



text \<open>The classification of the first example message for the work account.\<close>

lemma asap_classified:
  "classifyEmail exampleRuntime asapMessage workAccount =
     Inr \<lparr> isUrgent = False, isImportant = False, urgencyScore = 0.15, importanceScore = 0.15,
           reasons = [urgentReason ''asap'', importantReason ''deal''] \<rparr>"
  by code_simp

text \<open>
  C1. Whatever the message, the account and the runtime, the scores \<^verbatim>\<open>classifyEmail\<close>
  returns lie in \<open>[0, 1]\<close>, the returned \<^verbatim>\<open>isUrgent\<close> holds exactly when the returned
  urgency score is at least 0.3, and the returned \<^verbatim>\<open>isImportant\<close> exactly when the
  returned importance score is at least 0.3.
\<close>

theorem classifyEmail_scores:
  assumes "classifyEmail rt message account = Inr c"
  shows "0 \<le> urgencyScore c \<and> urgencyScore c \<le> 1 \<and>
         0 \<le> importanceScore c \<and> importanceScore c \<le> 1 \<and>
         (isUrgent c \<longleftrightarrow> 0.3 \<le> urgencyScore c) \<and>
         (isImportant c \<longleftrightarrow> 0.3 \<le> importanceScore c)"
proof -
  from assms obtain u0 r0 i0 r1 where
    u: "keywordLoop rt urgentReason (messageText message) (urgentKeywords account) (0, []) =
          Inr (u0, r0)" and
    i: "keywordLoop rt importantReason (messageText message) (importantKeywords account)
          (0, r0) = Inr (i0, r1)" and
    c: "c = classification (signalSteps rt message account u0 i0 r1)"
    by (rule classifyEmail_Inr)
  have "0 \<le> u0" using keywordLoop_nonneg [OF u] by simp
  then have u4: "0 \<le> fst (signalSteps rt message account u0 i0 r1)"
    by (rule signalSteps_nonneg)
  have "0 \<le> i0" using keywordLoop_nonneg [OF i] by simp
  then have i3: "0 \<le> fst (snd (signalSteps rt message account u0 i0 r1))"
    by (rule signalSteps_nonneg)
  have "0 \<le> urgencyScore c" "0 \<le> importanceScore c"
    using u4 i3 by (simp_all add: c classification_scores)
  moreover have "urgencyScore c \<le> 1" "importanceScore c \<le> 1"
    by (simp_all add: c classification_scores)
  moreover have "isUrgent c \<longleftrightarrow> 0.3 \<le> urgencyScore c"
    unfolding c by (rule classification_flags)
  moreover have "isImportant c \<longleftrightarrow> 0.3 \<le> importanceScore c"
    unfolding c by (rule classification_flags)
  ultimately show ?thesis by blast
qed

theorem classifyEmail_scores_witness:
  "classifyEmail exampleRuntime asapMessage workAccount =
     Inr \<lparr> isUrgent = False, isImportant = False, urgencyScore = 0.15, importanceScore = 0.15,
           reasons = [urgentReason ''asap'', importantReason ''deal''] \<rparr> \<and>
   (0::real) \<le> 0.15 \<and> (0.15::real) \<le> 1 \<and> (False \<longleftrightarrow> (0.3::real) \<le> 0.15)"
proof -
  note h = asap_classified
  from classifyEmail_scores [OF h] have "(0::real) \<le> 0.15 \<and> (0.15::real) \<le> 1 \<and> (False \<longleftrightarrow> (0.3::real) \<le> 0.15)"
    by simp
  with h show ?thesis by (intro conjI) blast+
qed

text \<open>
  C2 (as amended). \<^verbatim>\<open>classifyEmail\<close> reads the clock, so two calls on the same message and
  account agree when they also read the same time: the result is a function of the
  runtime's pattern engine and clock, of the message's subject, snippet, read flag,
  attachment flag, labels and date, and of the account's provider and keyword lists, and
  of nothing else. The reasons come in the fixed order of the steps: the urgent keywords
  that match, in list order, then the important keywords that match, in list order, then
  unread, attachments, Gmail labels and recency.
\<close>

theorem classifyEmail_deterministic:
  "(regexCount rt = regexCount rt' \<and> dateNow rt = dateNow rt' \<and>
    subject m = subject m' \<and> snippet m = snippet m' \<and> isRead m = isRead m' \<and>
    hasAttachments m = hasAttachments m' \<and> labels m = labels m' \<and>
    receivedAt m = receivedAt m' \<and> provider a = provider a' \<and>
    customUrgentKeywords a = customUrgentKeywords a' \<and>
    customImportantKeywords a = customImportantKeywords a'
    \<longrightarrow> classifyEmail rt m a = classifyEmail rt' m' a') \<and>
   (classifyEmail rt m a = Inr c \<longrightarrow>
     reasons c =
       map urgentReason (filter (keywordMatches rt (messageText m)) (urgentKeywords a)) @
       map importantReason (filter (keywordMatches rt (messageText m)) (importantKeywords a)) @
       (if isRead m then [] else [''Email is unread'']) @
       (if hasAttachments m then [''Email has attachments''] else []) @
       (if gmailFlagged m a then [''Marked as important/starred in Gmail''] else []) @
       (if daysSinceReceived rt m < 1 then [''Received within last 24 hours''] else []))"
proof (intro conjI impI)
  assume h: "regexCount rt = regexCount rt' \<and> dateNow rt = dateNow rt' \<and>
    subject m = subject m' \<and> snippet m = snippet m' \<and> isRead m = isRead m' \<and>
    hasAttachments m = hasAttachments m' \<and> labels m = labels m' \<and>
    receivedAt m = receivedAt m' \<and> provider a = provider a' \<and>
    customUrgentKeywords a = customUrgentKeywords a' \<and>
    customImportantKeywords a = customImportantKeywords a'"
  then have t: "messageText m = messageText m'" by (simp add: messageText_def)
  from h have k: "urgentKeywords a = urgentKeywords a'"
      "importantKeywords a = importantKeywords a'"
    by (simp_all add: urgentKeywords_def importantKeywords_def)
  from h have l: "\<And>mk txt kws acc.
      keywordLoop rt mk txt kws acc = keywordLoop rt' mk txt kws acc"
    by (intro keywordLoop_cong) simp
  from h have s: "\<And>u i r. signalSteps rt m a u i r = signalSteps rt' m' a' u i r"
    by (intro signalSteps_cong) simp_all
  show "classifyEmail rt m a = classifyEmail rt' m' a'"
    unfolding classifyEmail_def t k l s ..
next
  assume "classifyEmail rt m a = Inr c"
  then show "reasons c =
       map urgentReason (filter (keywordMatches rt (messageText m)) (urgentKeywords a)) @
       map importantReason (filter (keywordMatches rt (messageText m)) (importantKeywords a)) @
       (if isRead m then [] else [''Email is unread'']) @
       (if hasAttachments m then [''Email has attachments''] else []) @
       (if gmailFlagged m a then [''Marked as important/starred in Gmail''] else []) @
       (if daysSinceReceived rt m < 1 then [''Received within last 24 hours''] else [])"
    by (rule classifyEmail_reasons)
qed

theorem classifyEmail_deterministic_witness:
  "classifyEmail exampleRuntime asapMessage workAccount =
     classifyEmail exampleRuntime (asapMessage\<lparr>msg_id := ''m9'', body := ''hello''\<rparr>)
       failingAccount \<and>
   [urgentReason ''asap'', importantReason ''deal''] =
     map urgentReason
       (filter (keywordMatches exampleRuntime (messageText asapMessage))
          (urgentKeywords workAccount)) @
     map importantReason
       (filter (keywordMatches exampleRuntime (messageText asapMessage))
          (importantKeywords workAccount)) @
     (if isRead asapMessage then [] else [''Email is unread'']) @
     (if hasAttachments asapMessage then [''Email has attachments''] else []) @
     (if gmailFlagged asapMessage workAccount
      then [''Marked as important/starred in Gmail''] else []) @
     (if daysSinceReceived exampleRuntime asapMessage < 1
      then [''Received within last 24 hours''] else [])"
proof
  have "regexCount exampleRuntime = regexCount exampleRuntime \<and>
    dateNow exampleRuntime = dateNow exampleRuntime \<and>
    subject asapMessage = subject (asapMessage\<lparr>msg_id := ''m9'', body := ''hello''\<rparr>) \<and>
    snippet asapMessage = snippet (asapMessage\<lparr>msg_id := ''m9'', body := ''hello''\<rparr>) \<and>
    isRead asapMessage = isRead (asapMessage\<lparr>msg_id := ''m9'', body := ''hello''\<rparr>) \<and>
    hasAttachments asapMessage =
      hasAttachments (asapMessage\<lparr>msg_id := ''m9'', body := ''hello''\<rparr>) \<and>
    labels asapMessage = labels (asapMessage\<lparr>msg_id := ''m9'', body := ''hello''\<rparr>) \<and>
    receivedAt asapMessage = receivedAt (asapMessage\<lparr>msg_id := ''m9'', body := ''hello''\<rparr>) \<and>
    provider workAccount = provider failingAccount \<and>
    customUrgentKeywords workAccount = customUrgentKeywords failingAccount \<and>
    customImportantKeywords workAccount = customImportantKeywords failingAccount"
    by (simp add: workAccount_def failingAccount_def)
  then show "classifyEmail exampleRuntime asapMessage workAccount =
     classifyEmail exampleRuntime (asapMessage\<lparr>msg_id := ''m9'', body := ''hello''\<rparr>)
       failingAccount"
    by (rule classifyEmail_deterministic [THEN conjunct1, rule_format])
next
  from classifyEmail_deterministic [THEN conjunct2, rule_format, OF asap_classified]
  show "[urgentReason ''asap'', importantReason ''deal''] =
     map urgentReason
       (filter (keywordMatches exampleRuntime (messageText asapMessage))
          (urgentKeywords workAccount)) @
     map importantReason
       (filter (keywordMatches exampleRuntime (messageText asapMessage))
          (importantKeywords workAccount)) @
     (if isRead asapMessage then [] else [''Email is unread'']) @
     (if hasAttachments asapMessage then [''Email has attachments''] else []) @
     (if gmailFlagged asapMessage workAccount
      then [''Marked as important/starred in Gmail''] else []) @
     (if daysSinceReceived exampleRuntime asapMessage < 1
      then [''Received within last 24 hours''] else [])"
    by (simp only: Classification.simps)
qed

text \<open>
  C2 as stated fails: the same message and the same account, classified one hour after
  the message arrived and again two days after, get different results.
\<close>

theorem classifyEmail_clock_counterexample:
  "classifyEmail (exampleRuntime\<lparr>dateNow := 1700003600000\<rparr>) asapMessage workAccount \<noteq>
   classifyEmail (exampleRuntime\<lparr>dateNow := 1700172800000\<rparr>) asapMessage workAccount"
  by code_simp

section \<open>Urgent keywords and whole words\<close>












section \<open>The key of the seen set\<close>

lemma digit_in_digitChars: "k < 10 \<Longrightarrow> digitChars ! k \<in> set digitChars"
proof -
  assume "k < 10"
  then have "k < length digitChars" by (simp add: digitChars_def)
  then show ?thesis by (rule nth_mem)
qed

lemma digit_inj: "i < 10 \<Longrightarrow> j < 10 \<Longrightarrow> digitChars ! i = digitChars ! j \<Longrightarrow> i = j"
proof -
  assume a: "i < 10" "j < 10" "digitChars ! i = digitChars ! j"
  have "distinct digitChars" by (simp add: digitChars_def)
  moreover have "i < length digitChars" "j < length digitChars"
    using a by (simp_all add: digitChars_def)
  ultimately show "i = j" using a(3) by (simp add: nth_eq_iff_index_eq)
qed

lemma digitsOf_digits: "set (digitsOf n) \<subseteq> set digitChars"
proof (induction n rule: digitsOf.induct)
  case (1 n)
  show ?case
  proof (cases "n < 10")
    case True
    then show ?thesis by (simp add: digitsOf.simps [of n] digit_in_digitChars)
  next
    case False
    have "n mod 10 < 10" by simp
    then have "digitChars ! (n mod 10) \<in> set digitChars" by (rule digit_in_digitChars)
    with False 1 show ?thesis by (simp add: digitsOf.simps [of n])
  qed
qed

lemma digitsOf_nonempty: "digitsOf n \<noteq> []"
  by (simp add: digitsOf.simps [of n])

lemma digitsOf_inj: "digitsOf n = digitsOf m \<Longrightarrow> n = m"
proof (induction n arbitrary: m rule: digitsOf.induct)
  case (1 n)
  show ?case
  proof (cases "n < 10")
    case n: True
    show ?thesis
    proof (cases "m < 10")
      case True
      with n "1.prems" show ?thesis
        by (simp add: digitsOf.simps [of n] digitsOf.simps [of m] digit_inj)
    next
      case False
      with n "1.prems" digitsOf_nonempty [of "m div 10"] show ?thesis
        by (simp add: digitsOf.simps [of n] digitsOf.simps [of m])
    qed
  next
    case n: False
    show ?thesis
    proof (cases "m < 10")
      case True
      with n "1.prems" digitsOf_nonempty [of "n div 10"] show ?thesis
        by (simp add: digitsOf.simps [of n] digitsOf.simps [of m])
    next
      case False
      with n "1.prems" have e: "digitsOf (n div 10) = digitsOf (m div 10)"
          "digitChars ! (n mod 10) = digitChars ! (m mod 10)"
        by (simp_all add: digitsOf.simps [of n] digitsOf.simps [of m])
      from e(1) n have "n div 10 = m div 10" by (rule "1.IH" [rotated])
      moreover have "n mod 10 = m mod 10"
        using e(2) by (intro digit_inj) simp_all
      ultimately show ?thesis by (metis div_mult_mod_eq)
    qed
  qed
qed

lemma showInt_chars: "set (showInt i) \<subseteq> set (''-'' @ digitChars)"
  using digitsOf_digits by (auto simp: showInt_def)

lemma showInt_no_colon: "CHR '':'' \<notin> set (showInt i)"
  using showInt_chars [of i] by (auto simp: digitChars_def)

lemma showInt_inj: "showInt i = showInt j \<Longrightarrow> i = j"
proof -
  assume e: "showInt i = showInt j"
  have minus: "\<And>k ds. digitsOf k \<noteq> CHR ''-'' # ds"
  proof
    fix k ds assume "digitsOf k = CHR ''-'' # ds"
    then have "CHR ''-'' \<in> set (digitsOf k)" by simp
    with digitsOf_digits [of k] show False by (auto simp: digitChars_def)
  qed
  show "i = j"
  proof (cases "i < 0")
    case i: True
    show ?thesis
    proof (cases "j < 0")
      case True
      with i e have "digitsOf (nat (- i)) = digitsOf (nat (- j))" by (simp add: showInt_def)
      then have "nat (- i) = nat (- j)" by (rule digitsOf_inj)
      with i True show ?thesis by simp
    next
      case False
      with i e have "digitsOf (nat j) = CHR ''-'' # digitsOf (nat (- i))"
        by (simp add: showInt_def)
      with minus show ?thesis by blast
    qed
  next
    case i: False
    show ?thesis
    proof (cases "j < 0")
      case True
      with i e have "digitsOf (nat i) = CHR ''-'' # digitsOf (nat (- j))"
        by (simp add: showInt_def)
      with minus show ?thesis by blast
    next
      case False
      with i e have "digitsOf (nat i) = digitsOf (nat j)" by (simp add: showInt_def)
      then have "nat i = nat j" by (rule digitsOf_inj)
      with i False show ?thesis by simp
    qed
  qed
qed

lemma separator_split:
  "c \<notin> set xs \<Longrightarrow> c \<notin> set ys \<Longrightarrow> xs @ c # us = ys @ c # vs \<Longrightarrow> xs = ys \<and> us = vs"
proof (induction xs arbitrary: ys)
  case Nil
  then show ?case by (cases ys) auto
next
  case (Cons x xs)
  then show ?case by (cases ys) auto
qed

text \<open>The key determines the account id and the message id.\<close>

lemma resultKey_inj: "resultKey i m = resultKey j m' \<longleftrightarrow> i = j \<and> m = m'"
proof
  assume "resultKey i m = resultKey j m'"
  then have "showInt i @ CHR '':'' # m = showInt j @ CHR '':'' # m'"
    by (simp add: resultKey_def)
  with showInt_no_colon [of i] showInt_no_colon [of j]
  have "showInt i = showInt j \<and> m = m'" by (rule separator_split)
  then show "i = j \<and> m = m'" using showInt_inj by blast
qed simp

section \<open>Deduplication\<close>

lemma keyString_inj: "keyString k = keyString k' \<longleftrightarrow> k = k'"
  by (cases k; cases k') (simp add: keyString_def resultKey_inj)

lemma keyString_image: "keyString k \<in> keyString ` S \<longleftrightarrow> k \<in> S"
  by (auto simp: keyString_inj)

lemma resultKeyOf_classified:
  "resultKeyOf (classified a m c) = compositeKey (a, m)"
  by (simp add: resultKeyOf_def classified_def compositeKey_def)

lemma resultOf_key: "resultOf rt e am \<Longrightarrow> resultKeyOf e = compositeKey am"
  by (cases am) (auto simp: resultOf_def resultKeyOf_classified split: sum.splits)

lemma resultOf_keys: "list_all2 (resultOf rt) es ams \<Longrightarrow> map resultKeyOf es = map compositeKey ams"
  by (induction rule: list_all2_induct) (simp_all add: resultOf_key)

lemma keepFirst_keys: "compositeKey ` set (keepFirst S xs) = compositeKey ` set xs - S"
  by (induction xs arbitrary: S) auto

lemma keepFirst_subset: "set (keepFirst S xs) \<subseteq> set xs"
  by (induction xs arbitrary: S) auto

lemma keepFirst_distinct: "distinct (map compositeKey (keepFirst S xs))"
proof (induction xs arbitrary: S)
  case Nil then show ?case by simp
next
  case (Cons x xs)
  have "compositeKey x \<notin> compositeKey ` set (keepFirst (insert (compositeKey x) S) xs)"
    unfolding keepFirst_keys by simp
  with Cons show ?case by simp
qed

lemma keepFirst_append:
  "keepFirst S (xs @ ys) = keepFirst S xs @ keepFirst (S \<union> compositeKey ` set xs) ys"
proof (induction xs arbitrary: S)
  case Nil then show ?case by simp
next
  case (Cons x xs)
  show ?case
  proof (cases "compositeKey x \<in> S")
    case True
    then have "S \<union> compositeKey ` set (x # xs) = S \<union> compositeKey ` set xs" by auto
    with True Cons show ?thesis by simp
  next
    case False
    have "insert (compositeKey x) S \<union> compositeKey ` set xs = S \<union> compositeKey ` set (x # xs)"
      by auto
    with False Cons [of "insert (compositeKey x) S"] show ?thesis by simp
  qed
qed

text \<open>The first occurrence wins: the pair kept for a key is the first with that key.\<close>

lemma keepFirst_find:
  "k \<notin> S \<Longrightarrow>
     find (\<lambda>x. compositeKey x = k) (keepFirst S xs) = find (\<lambda>x. compositeKey x = k) xs"
proof (induction xs arbitrary: S)
  case Nil then show ?case by simp
next
  case (Cons x xs)
  then show ?case by (cases "compositeKey x = k") auto
qed

lemma classifyMessages_unique:
  "uniqueResults st \<Longrightarrow> uniqueResults (classifyMessages rt a msgs st)"
proof (induction msgs arbitrary: st)
  case Nil then show ?case by simp
next
  case (Cons m ms)
  let ?key = "resultKey (acc_id a) (msg_id m)"
  show ?case
  proof (cases "?key \<in> seen st")
    case True
    with Cons show ?thesis by simp
  next
    case False
    show ?thesis
    proof (cases "classifyEmail rt m a")
      case (Inl e)
      have "uniqueResults (st\<lparr>seen := insert ?key (seen st)\<rparr>)"
        using Cons.prems by (simp add: uniqueResults_def)
      with False Inl show ?thesis by simp
    next
      case (Inr c)
      let ?st = "st\<lparr>seen := insert ?key (seen st),
                    cacheRows := cacheSearchResult (acc_id a) m c (cacheRows st),
                    allResults := allResults st @ [classified a m c]\<rparr>"
      have k: "keyString (resultKeyOf (classified a m c)) = ?key"
        by (simp add: resultKeyOf_classified compositeKey_def keyString_def)
      have new: "resultKeyOf (classified a m c) \<notin> resultKeyOf ` set (allResults st)"
      proof
        assume "resultKeyOf (classified a m c) \<in> resultKeyOf ` set (allResults st)"
        then obtain e where e: "e \<in> set (allResults st)"
            "resultKeyOf e = resultKeyOf (classified a m c)" by auto
        from Cons.prems e(1) have "keyString (resultKeyOf e) \<in> seen st"
          unfolding uniqueResults_def by blast
        with e(2) k False show False by simp
      qed
      have "uniqueResults ?st"
        using Cons.prems new k by (auto simp: uniqueResults_def)
      then have "uniqueResults (classifyMessages rt a ms ?st)" by (rule Cons.IH)
      with False Inr show ?thesis by simp
    qed
  qed
qed

lemma searchAccounts_unique:
  "uniqueResults st \<Longrightarrow> uniqueResults (searchAccounts rt q n targets st)"
proof (induction targets arbitrary: st)
  case Nil then show ?case by simp
next
  case (Cons a rest)
  let ?st = "st\<lparr>calls := calls st @ [SearchCall (acc_id a) q (n * 2)]\<rparr>"
  have u: "uniqueResults ?st" using Cons.prems by (simp add: uniqueResults_def)
  show ?case
  proof (cases "clientSearch rt a q (n * 2)")
    case (Inl e)
    with Cons.IH [OF u] show ?thesis by simp
  next
    case (Inr msgs)
    have "uniqueResults (classifyMessages rt a msgs ?st)"
      using u by (rule classifyMessages_unique)
    then have "uniqueResults (searchAccounts rt q n rest (classifyMessages rt a msgs ?st))"
      by (rule Cons.IH)
    with Inr show ?thesis by simp
  qed
qed

lemma fanOut_unique: "distinct (map resultKeyOf (allResults (fanOut rt w q n targets)))"
proof -
  have "uniqueResults \<lparr>allResults = [], seen = {},
      cacheRows = email_search_results w, calls = providerCalls w\<rparr>"
    by (simp add: uniqueResults_def)
  then have "uniqueResults (fanOut rt w q n targets)"
    unfolding fanOut_def by (rule searchAccounts_unique)
  then show ?thesis by (simp add: uniqueResults_def)
qed

text \<open>
  When no classification throws, the loops leave in \<^verbatim>\<open>allResults\<close> the classifications of
  the pairs that \<open>keepFirst\<close> keeps.
\<close>

lemma classifyMessages_keepFirst:
  assumes "\<forall>m \<in> set msgs. \<exists>c. classifyEmail rt m a = Inr c"
    and "seen st = keyString ` S"
  shows "\<exists>new. allResults (classifyMessages rt a msgs st) = allResults st @ new \<and>
           list_all2 (resultOf rt) new (keepFirst S (map (Pair a) msgs)) \<and>
           seen (classifyMessages rt a msgs st) =
             keyString ` (S \<union> compositeKey ` set (map (Pair a) msgs))"
  using assms
proof (induction msgs arbitrary: st S)
  case Nil then show ?case by simp
next
  case (Cons m ms)
  let ?k = "compositeKey (a, m)"
  let ?key = "resultKey (acc_id a) (msg_id m)"
  have key: "?key = keyString ?k" by (simp add: keyString_def compositeKey_def)
  have rest: "\<forall>m \<in> set ms. \<exists>c. classifyEmail rt m a = Inr c" using Cons.prems(1) by simp
  show ?case
  proof (cases "?k \<in> S")
    case True
    then have s: "?key \<in> seen st" by (simp add: key Cons.prems(2))
    from Cons.IH [OF rest Cons.prems(2)] obtain new where
      new: "allResults (classifyMessages rt a ms st) = allResults st @ new"
        "list_all2 (resultOf rt) new (keepFirst S (map (Pair a) ms))"
        "seen (classifyMessages rt a ms st) =
           keyString ` (S \<union> compositeKey ` set (map (Pair a) ms))"
      by blast
    have "S \<union> compositeKey ` set (map (Pair a) (m # ms)) =
        S \<union> compositeKey ` set (map (Pair a) ms)"
      using True by auto
    with new s True show ?thesis by simp
  next
    case False
    then have s: "?key \<notin> seen st" by (simp add: key Cons.prems(2) keyString_image)
    from Cons.prems(1) obtain c where c: "classifyEmail rt m a = Inr c" by auto
    let ?st = "st\<lparr>seen := insert ?key (seen st),
                  cacheRows := cacheSearchResult (acc_id a) m c (cacheRows st),
                  allResults := allResults st @ [classified a m c]\<rparr>"
    have "seen ?st = keyString ` insert ?k S" by (simp add: key Cons.prems(2))
    from Cons.IH [OF rest this] obtain new where
      new: "allResults (classifyMessages rt a ms ?st) = allResults ?st @ new"
        "list_all2 (resultOf rt) new (keepFirst (insert ?k S) (map (Pair a) ms))"
        "seen (classifyMessages rt a ms ?st) =
           keyString ` (insert ?k S \<union> compositeKey ` set (map (Pair a) ms))"
      by blast
    have r: "resultOf rt (classified a m c) (a, m)" by (simp add: resultOf_def c)
    have step: "classifyMessages rt a (m # ms) st = classifyMessages rt a ms ?st"
      using s c by simp
    have "allResults (classifyMessages rt a (m # ms) st) =
        allResults st @ classified a m c # new"
      unfolding step new(1) by simp
    moreover have "list_all2 (resultOf rt) (classified a m c # new)
        (keepFirst S (map (Pair a) (m # ms)))"
      using False r new(2) by simp
    moreover have "seen (classifyMessages rt a (m # ms) st) =
        keyString ` (S \<union> compositeKey ` set (map (Pair a) (m # ms)))"
      unfolding step new(3) by simp
    ultimately show ?thesis by blast
  qed
qed

lemma fanStream_Cons:
  "fanStream rt q n (a # rest) =
     (case clientSearch rt a q (n * 2) of Inl e \<Rightarrow> [] | Inr msgs \<Rightarrow> map (Pair a) msgs) @
     fanStream rt q n rest"
  by (simp add: fanStream_def)

lemma searchAccounts_keepFirst:
  assumes "\<forall>am \<in> set (fanStream rt q n targets). \<exists>c. classifyEmail rt (snd am) (fst am) = Inr c"
    and "seen st = keyString ` S"
  shows "\<exists>new. allResults (searchAccounts rt q n targets st) = allResults st @ new \<and>
           list_all2 (resultOf rt) new (keepFirst S (fanStream rt q n targets)) \<and>
           seen (searchAccounts rt q n targets st) =
             keyString ` (S \<union> compositeKey ` set (fanStream rt q n targets))"
  using assms
proof (induction targets arbitrary: st S)
  case Nil then show ?case by (simp add: fanStream_def)
next
  case (Cons a rest)
  let ?st = "st\<lparr>calls := calls st @ [SearchCall (acc_id a) q (n * 2)]\<rparr>"
  have seen: "seen ?st = keyString ` S" using Cons.prems(2) by simp
  have restOk: "\<forall>am \<in> set (fanStream rt q n rest).
      \<exists>c. classifyEmail rt (snd am) (fst am) = Inr c"
    using Cons.prems(1) by (simp add: fanStream_Cons)
  show ?case
  proof (cases "clientSearch rt a q (n * 2)")
    case (Inl e)
    from Cons.IH [OF restOk seen] Inl show ?thesis by (simp add: fanStream_Cons)
  next
    case (Inr msgs)
    have "\<forall>m \<in> set msgs. \<exists>c. classifyEmail rt m a = Inr c"
    proof
      fix m assume "m \<in> set msgs"
      then have "(a, m) \<in> set (fanStream rt q n (a # rest))"
        using Inr by (simp add: fanStream_Cons)
      with Cons.prems(1) have "\<exists>c. classifyEmail rt (snd (a, m)) (fst (a, m)) = Inr c"
        by (rule bspec)
      then show "\<exists>c. classifyEmail rt m a = Inr c" by simp
    qed
    from classifyMessages_keepFirst [OF this seen] obtain new1 where
      n1: "allResults (classifyMessages rt a msgs ?st) = allResults ?st @ new1"
        "list_all2 (resultOf rt) new1 (keepFirst S (map (Pair a) msgs))"
        "seen (classifyMessages rt a msgs ?st) =
           keyString ` (S \<union> compositeKey ` set (map (Pair a) msgs))"
      by blast
    from Cons.IH [OF restOk n1(3)] obtain new2 where
      n2: "allResults (searchAccounts rt q n rest (classifyMessages rt a msgs ?st)) =
             allResults (classifyMessages rt a msgs ?st) @ new2"
        "list_all2 (resultOf rt) new2
           (keepFirst (S \<union> compositeKey ` set (map (Pair a) msgs)) (fanStream rt q n rest))"
        "seen (searchAccounts rt q n rest (classifyMessages rt a msgs ?st)) =
           keyString ` (S \<union> compositeKey ` set (map (Pair a) msgs) \<union>
                        compositeKey ` set (fanStream rt q n rest))"
      by blast
    have step: "searchAccounts rt q n (a # rest) st =
        searchAccounts rt q n rest (classifyMessages rt a msgs ?st)"
      using Inr by simp
    have stream: "fanStream rt q n (a # rest) = map (Pair a) msgs @ fanStream rt q n rest"
      using Inr by (simp add: fanStream_Cons)
    have "allResults (searchAccounts rt q n (a # rest) st) = allResults st @ (new1 @ new2)"
      unfolding step n2(1) n1(1) by simp
    moreover have "list_all2 (resultOf rt) (new1 @ new2)
        (keepFirst S (fanStream rt q n (a # rest)))"
      unfolding stream keepFirst_append using n1(2) n2(2) by (rule list_all2_appendI)
    moreover have "seen (searchAccounts rt q n (a # rest) st) =
        keyString ` (S \<union> compositeKey ` set (fanStream rt q n (a # rest)))"
      unfolding step n2(3) stream by (simp add: image_Un Un_assoc)
    ultimately show ?thesis by blast
  qed
qed

lemma fanOut_keepFirst:
  assumes "\<forall>am \<in> set (fanStream rt q n targets). \<exists>c. classifyEmail rt (snd am) (fst am) = Inr c"
  shows "list_all2 (resultOf rt) (allResults (fanOut rt w q n targets))
           (keepFirst {} (fanStream rt q n targets))"
proof -
  let ?st = "\<lparr>allResults = [], seen = {},
      cacheRows = email_search_results w, calls = providerCalls w\<rparr>"
  have "seen ?st = keyString ` {}" by simp
  from searchAccounts_keepFirst [OF assms this] show ?thesis
    by (auto simp: fanOut_def)
qed

section \<open>Ranking and truncation\<close>

lemma slice0_take: "\<exists>k. slice0 xs n = take k xs"
  by (auto simp: slice0_def)


lemma slice0_all: "int (length xs) \<le> n \<Longrightarrow> slice0 xs n = xs"
  by (simp add: slice0_def)

lemma slice0_subset: "set (slice0 xs n) \<subseteq> set xs"
  using slice0_take [of xs n] by (auto dest: in_set_takeD)

lemma slice0_distinct: "distinct (map f xs) \<Longrightarrow> distinct (map f (slice0 xs n))"
proof -
  assume d: "distinct (map f xs)"
  obtain k where "slice0 xs n = take k xs" using slice0_take by blast
  then have "map f (slice0 xs n) = take k (map f xs)" by (simp add: take_map)
  with d show ?thesis by simp
qed


lemma insort_key_map_distinct:
  "distinct (map g (insort_key f x xs)) \<longleftrightarrow> g x \<notin> g ` set xs \<and> distinct (map g xs)"
  by (induction xs) (auto simp: set_insort_key)

lemma sort_key_map_distinct: "distinct (map g (sort_key f xs)) \<longleftrightarrow> distinct (map g xs)"
  by (induction xs) (simp_all add: insort_key_map_distinct)


lemma sortByScore_length: "length (sortByScore xs) = length xs"
  by (simp add: sortByScore_def)

lemma sortByScore_distinct: "distinct (map g (sortByScore xs)) \<longleftrightarrow> distinct (map g xs)"
  by (simp add: sortByScore_def sort_key_map_distinct)


lemma sortByScore_filter: "filter P (sortByScore xs) = sortByScore (filter P xs)"
  by (simp add: sortByScore_def filter_sort)

lemma single_by_key:
  "distinct (map f xs) \<Longrightarrow> x \<in> set xs \<Longrightarrow> filter (\<lambda>y. f y = f x) xs = [x]"
proof (induction xs)
  case Nil then show ?case by simp
next
  case (Cons y ys)
  show ?case
  proof (cases "x = y")
    case True
    have "f y \<notin> f ` set ys" using Cons.prems(1) by simp
    then have "filter (\<lambda>z. f z = f y) ys = []"
      unfolding filter_empty_conv by (metis imageI)
    with True show ?thesis by simp
  next
    case False
    with Cons.prems have "x \<in> set ys" by simp
    then have "f x \<in> f ` set ys" by simp
    with Cons.prems(1) have "f y \<noteq> f x" by auto
    with Cons False \<open>x \<in> set ys\<close> show ?thesis by simp
  qed
qed

section \<open>The search service\<close>

lemma searchEmails_Inr:
  assumes "searchEmails rt w criteria = (Inr out, w')"
  shows "out = slice0 (sortByScore (allResults
           (fanOut rt w (query criteria) (resultLimit criteria)
              (accountsToSearch w (accounts criteria))))) (resultLimit criteria)"
    and "accountsToSearch w (accounts criteria) \<noteq> []"
  using assms by (auto simp: searchEmails_def Let_def split: if_splits)

lemma searchEmails_targets:
  assumes "accountsToSearch w (accounts criteria) \<noteq> []"
  shows "\<exists>w'. searchEmails rt w criteria =
     (Inr (slice0 (sortByScore (allResults
           (fanOut rt w (query criteria) (resultLimit criteria)
              (accountsToSearch w (accounts criteria))))) (resultLimit criteria)), w')"
  using assms by (simp add: searchEmails_def Let_def)

lemma list_all2_right:
  "list_all2 P xs ys \<Longrightarrow> y \<in> set ys \<Longrightarrow> \<exists>x \<in> set xs. P x y"
  by (induction rule: list_all2_induct) auto

lemma fanStream_accounts: "am \<in> set (fanStream rt q n targets) \<Longrightarrow> fst am \<in> set targets"
  by (auto simp: fanStream_def split: sum.splits)

lemma classifyEmail_plain:
  assumes "\<forall>kw \<in> set (urgentKeywords a). plainKeyword kw"
    and "\<forall>kw \<in> set (importantKeywords a). plainKeyword kw"
  shows "\<exists>c. classifyEmail rt m a = Inr c"
proof -
  let ?cnt = "\<lambda>kw. scanMatches kw 0 None (messageText m)"
  have u: "\<forall>kw \<in> set (urgentKeywords a). matchCount rt kw (messageText m) = Some (?cnt kw)"
    using assms(1) by (simp add: matchCount_def)
  have i: "\<forall>kw \<in> set (importantKeywords a). matchCount rt kw (messageText m) = Some (?cnt kw)"
    using assms(2) by (simp add: matchCount_def)
  show ?thesis
    unfolding classifyEmail_def keywordLoop_counts [OF u] keywordLoop_counts [OF i]
    by simp
qed

text \<open>
  What \<^verbatim>\<open>searchEmails\<close> returns when no classification throws: the classifications of the
  first occurrences, ranked and cut.
\<close>

lemma searchEmails_complete:
  assumes out: "searchEmails rt w criteria = (Inr out, w')"
    and ok: "\<forall>am \<in> set (searchStream rt w criteria).
       \<exists>c. classifyEmail rt (snd am) (fst am) = Inr c"
    and fit: "int (length (keepFirst {} (searchStream rt w criteria))) \<le> resultLimit criteria"
    and am: "am \<in> set (searchStream rt w criteria)"
  shows "\<exists>e am0. filter (\<lambda>e. resultKeyOf e = compositeKey am) out = [e] \<and>
           find (\<lambda>x. compositeKey x = compositeKey am) (searchStream rt w criteria) = Some am0 \<and>
           resultOf rt e am0"
proof -
  let ?stream = "searchStream rt w criteria"
  let ?kept = "keepFirst {} ?stream"
  let ?merged = "allResults (fanOut rt w (query criteria) (resultLimit criteria)
                   (accountsToSearch w (accounts criteria)))"
  let ?P = "\<lambda>x. compositeKey x = compositeKey am"
  have rel: "list_all2 (resultOf rt) ?merged ?kept"
    using ok unfolding searchStream_def by (rule fanOut_keepFirst)
  then have len: "length ?merged = length ?kept" by (rule list_all2_lengthD)
  have o: "out = sortByScore ?merged"
    using searchEmails_Inr(1) [OF out] fit len
    by (simp add: slice0_all sortByScore_length)
  have "find ?P ?stream \<noteq> None"
    unfolding find_None_iff using am by blast
  then obtain am0 where f: "find ?P ?stream = Some am0" by blast
  then have "find ?P ?kept = Some am0" by (simp add: keepFirst_find)
  then have k: "am0 \<in> set ?kept" "compositeKey am0 = compositeKey am"
    by (auto simp: find_Some_iff)
  from list_all2_right [OF rel k(1)] obtain e where
    e: "e \<in> set ?merged" "resultOf rt e am0" by blast
  have key: "resultKeyOf e = compositeKey am" using resultOf_key [OF e(2)] k(2) by simp
  have "distinct (map resultKeyOf ?merged)" by (rule fanOut_unique)
  then have "filter (\<lambda>y. resultKeyOf y = resultKeyOf e) ?merged = [e]"
    using e(1) by (rule single_by_key)
  then have "filter (\<lambda>y. resultKeyOf y = compositeKey am) out = [e]"
    unfolding o sortByScore_filter key by (simp add: sortByScore_def)
  with f e(2) show ?thesis by blast
qed

text \<open>
  C4 (as amended). \<^verbatim>\<open>searchEmails\<close> deduplicates by the composite key (account id,
  message id): its output never holds two results with the same key. When no
  classification throws and the deduplicated results number at most \<^verbatim>\<open>maxResults\<close>, so
  that the ranked list is not cut, every message an account returns has exactly one
  result in the output, the classification of the first occurrence of its key in the
  fan-out; so two accounts that return the same message id both keep it, and one account
  that returns a message id twice keeps it once.
\<close>

theorem searchEmails_dedup:
  assumes "searchEmails rt w criteria = (Inr out, w')"
  shows "distinct (map resultKeyOf out) \<and>
     ((\<forall>am \<in> set (searchStream rt w criteria).
          \<exists>c. classifyEmail rt (snd am) (fst am) = Inr c) \<and>
      int (length (keepFirst {} (searchStream rt w criteria))) \<le> resultLimit criteria \<longrightarrow>
      (\<forall>am \<in> set (searchStream rt w criteria).
         \<exists>e am0. filter (\<lambda>e. resultKeyOf e = compositeKey am) out = [e] \<and>
           find (\<lambda>x. compositeKey x = compositeKey am) (searchStream rt w criteria) = Some am0 \<and>
           resultOf rt e am0))"
proof (intro conjI impI ballI)
  have "distinct (map resultKeyOf (sortByScore (allResults
      (fanOut rt w (query criteria) (resultLimit criteria)
         (accountsToSearch w (accounts criteria))))))"
    unfolding sortByScore_distinct by (rule fanOut_unique)
  then show "distinct (map resultKeyOf out)"
    unfolding searchEmails_Inr(1) [OF assms] by (rule slice0_distinct)
next
  fix am
  assume h: "(\<forall>am \<in> set (searchStream rt w criteria).
          \<exists>c. classifyEmail rt (snd am) (fst am) = Inr c) \<and>
      int (length (keepFirst {} (searchStream rt w criteria))) \<le> resultLimit criteria"
    and am: "am \<in> set (searchStream rt w criteria)"
  from h have ok: "\<forall>am \<in> set (searchStream rt w criteria).
      \<exists>c. classifyEmail rt (snd am) (fst am) = Inr c" ..
  from h have fit: "int (length (keepFirst {} (searchStream rt w criteria))) \<le>
      resultLimit criteria" ..
  from assms ok fit am
  show "\<exists>e am0. filter (\<lambda>e. resultKeyOf e = compositeKey am) out = [e] \<and>
           find (\<lambda>x. compositeKey x = compositeKey am) (searchStream rt w criteria) = Some am0 \<and>
           resultOf rt e am0"
    by (rule searchEmails_complete)
qed

lemma example_targets:
  "accountsToSearch exampleWorld (accounts exampleCriteria) =
     [homeAccount, workAccount, failingAccount]"
  by (simp add: accountsToSearch_def exampleCriteria_def listActiveAccounts_def
      exampleWorld_def homeAccount_def workAccount_def failingAccount_def)

lemma example_plain:
  assumes "a \<in> set [homeAccount, workAccount, failingAccount]"
  shows "\<forall>kw \<in> set (urgentKeywords a). plainKeyword kw"
    and "\<forall>kw \<in> set (importantKeywords a). plainKeyword kw"
  using assms
  by (auto simp: urgentKeywords_def importantKeywords_def homeAccount_def workAccount_def
      failingAccount_def plainKeyword_def syntaxChars_def)

lemma example_classifies:
  "\<forall>am \<in> set (searchStream exampleRuntime exampleWorld exampleCriteria).
     \<exists>c. classifyEmail exampleRuntime (snd am) (fst am) = Inr c"
proof
  fix am assume "am \<in> set (searchStream exampleRuntime exampleWorld exampleCriteria)"
  then have "fst am \<in> set [homeAccount, workAccount, failingAccount]"
    unfolding searchStream_def example_targets by (rule fanStream_accounts)
  then show "\<exists>c. classifyEmail exampleRuntime (snd am) (fst am) = Inr c"
    by (intro classifyEmail_plain example_plain)
qed

lemma example_fits:
  "int (length (keepFirst {} (searchStream exampleRuntime exampleWorld exampleCriteria))) \<le>
     resultLimit exampleCriteria"
  by code_simp

lemma example_keys:
  "map resultKeyOf (projr (fst (searchEmails exampleRuntime exampleWorld exampleCriteria))) =
     [(2, ''m1''), (3, ''m2''), (3, ''m1''), (2, ''m2'')]"
  by code_simp

lemma example_stream:
  "searchStream exampleRuntime exampleWorld exampleCriteria =
     [(homeAccount, noteMessage), (homeAccount, asapMessage),
      (workAccount, noteMessage), (workAccount, asapMessage)]"
  by code_simp

theorem searchEmails_dedup_witness:
  "distinct (map resultKeyOf
     (projr (fst (searchEmails exampleRuntime exampleWorld exampleCriteria)))) \<and>
   (homeAccount, asapMessage) \<in> set (searchStream exampleRuntime exampleWorld exampleCriteria) \<and>
   (workAccount, asapMessage) \<in> set (searchStream exampleRuntime exampleWorld exampleCriteria) \<and>
   (\<exists>e am0. filter (\<lambda>e. resultKeyOf e = compositeKey (homeAccount, asapMessage))
                 (projr (fst (searchEmails exampleRuntime exampleWorld exampleCriteria))) = [e] \<and>
        find (\<lambda>x. compositeKey x = compositeKey (homeAccount, asapMessage))
          (searchStream exampleRuntime exampleWorld exampleCriteria) = Some am0 \<and>
        resultOf exampleRuntime e am0) \<and>
   (\<exists>e am0. filter (\<lambda>e. resultKeyOf e = compositeKey (workAccount, asapMessage))
                 (projr (fst (searchEmails exampleRuntime exampleWorld exampleCriteria))) = [e] \<and>
        find (\<lambda>x. compositeKey x = compositeKey (workAccount, asapMessage))
          (searchStream exampleRuntime exampleWorld exampleCriteria) = Some am0 \<and>
        resultOf exampleRuntime e am0)"
proof -
  have "accountsToSearch exampleWorld (accounts exampleCriteria) \<noteq> []"
    by (simp add: example_targets)
  from searchEmails_targets [OF this, of exampleRuntime] obtain out w' where
    h: "searchEmails exampleRuntime exampleWorld exampleCriteria = (Inr out, w')" by blast
  then have out: "projr (fst (searchEmails exampleRuntime exampleWorld exampleCriteria)) = out"
    by simp
  have m: "(homeAccount, asapMessage) \<in>
        set (searchStream exampleRuntime exampleWorld exampleCriteria)"
      "(workAccount, asapMessage) \<in>
        set (searchStream exampleRuntime exampleWorld exampleCriteria)"
    unfolding example_stream by simp_all
  from searchEmails_dedup [OF h] example_classifies example_fits m
  show ?thesis unfolding out by blast
qed

text \<open>
  C4 as stated fails when the ranked list is cut: the home account (id 3) and the work
  account (id 2) both return the message \<^verbatim>\<open>m1\<close>, and with \<^verbatim>\<open>maxResults = 1\<close> the output holds
  the work account's result alone.
\<close>

theorem searchEmails_dedup_truncated_counterexample:
  "clientSearch exampleRuntime homeAccount ''deal'' 2 = Inr [noteMessage, asapMessage] \<and>
   clientSearch exampleRuntime workAccount ''deal'' 2 = Inr [noteMessage, asapMessage] \<and>
   fst (searchEmails exampleRuntime exampleWorld (exampleCriteria\<lparr>maxResults := Some 1\<rparr>)) =
     Inr [classified workAccount asapMessage
            \<lparr> isUrgent = False, isImportant = False, urgencyScore = 0.15,
              importanceScore = 0.15,
              reasons = [urgentReason ''asap'', importantReason ''deal''] \<rparr>]"
  by code_simp

section \<open>Accounts that fail\<close>

lemma classifyMessages_calls:
  "classifyMessages rt a msgs (st\<lparr>calls := cs\<rparr>) = (classifyMessages rt a msgs st)\<lparr>calls := cs\<rparr>"
proof (induction msgs arbitrary: st)
  case Nil then show ?case by simp
next
  case (Cons m ms)
  show ?case
  proof (cases "resultKey (acc_id a) (msg_id m) \<in> seen st")
    case True
    with Cons show ?thesis by simp
  next
    case False
    show ?thesis
    proof (cases "classifyEmail rt m a")
      case (Inl e)
      with False show ?thesis by simp
    next
      case (Inr c)
      let ?st = "st\<lparr>seen := insert (resultKey (acc_id a) (msg_id m)) (seen st),
                    cacheRows := cacheSearchResult (acc_id a) m c (cacheRows st),
                    allResults := allResults st @ [classified a m c]\<rparr>"
      have upd: "st\<lparr>calls := cs,
            seen := insert (resultKey (acc_id a) (msg_id m)) (seen st),
            cacheRows := cacheSearchResult (acc_id a) m c (cacheRows st),
            allResults := allResults st @ [classified a m c]\<rparr> = ?st\<lparr>calls := cs\<rparr>"
        by (cases st) simp
      have "classifyMessages rt a (m # ms) (st\<lparr>calls := cs\<rparr>) =
          classifyMessages rt a ms (?st\<lparr>calls := cs\<rparr>)"
        using False Inr by (simp add: upd)
      also have "\<dots> = (classifyMessages rt a ms ?st)\<lparr>calls := cs\<rparr>" by (rule Cons.IH)
      also have "classifyMessages rt a ms ?st = classifyMessages rt a (m # ms) st"
        using False Inr by simp
      finally show ?thesis .
    qed
  qed
qed

lemma searchAccounts_calls:
  "(searchAccounts rt q n targets (st\<lparr>calls := x\<rparr>))\<lparr>calls := cs\<rparr> =
   (searchAccounts rt q n targets st)\<lparr>calls := cs\<rparr>"
proof (induction targets arbitrary: st x)
  case Nil then show ?case by simp
next
  case (Cons a rest)
  let ?c = "SearchCall (acc_id a) q (n * 2)"
  show ?case
  proof (cases "clientSearch rt a q (n * 2)")
    case (Inl e)
    have "(searchAccounts rt q n (a # rest) (st\<lparr>calls := x\<rparr>))\<lparr>calls := cs\<rparr> =
        (searchAccounts rt q n rest (st\<lparr>calls := x @ [?c]\<rparr>))\<lparr>calls := cs\<rparr>"
      using Inl by simp
    also have "\<dots> = (searchAccounts rt q n rest st)\<lparr>calls := cs\<rparr>" by (rule Cons.IH)
    also have "\<dots> = (searchAccounts rt q n rest (st\<lparr>calls := calls st @ [?c]\<rparr>))\<lparr>calls := cs\<rparr>"
      by (rule Cons.IH [symmetric])
    also have "\<dots> = (searchAccounts rt q n (a # rest) st)\<lparr>calls := cs\<rparr>"
      using Inl by simp
    finally show ?thesis .
  next
    case (Inr msgs)
    have "(searchAccounts rt q n (a # rest) (st\<lparr>calls := x\<rparr>))\<lparr>calls := cs\<rparr> =
        (searchAccounts rt q n rest
           ((classifyMessages rt a msgs st)\<lparr>calls := x @ [?c]\<rparr>))\<lparr>calls := cs\<rparr>"
      using Inr by (simp add: classifyMessages_calls)
    also have "\<dots> = (searchAccounts rt q n rest (classifyMessages rt a msgs st))\<lparr>calls := cs\<rparr>"
      by (rule Cons.IH)
    also have "\<dots> = (searchAccounts rt q n rest
           ((classifyMessages rt a msgs st)\<lparr>calls := calls st @ [?c]\<rparr>))\<lparr>calls := cs\<rparr>"
      by (rule Cons.IH [symmetric])
    also have "\<dots> = (searchAccounts rt q n (a # rest) st)\<lparr>calls := cs\<rparr>"
      using Inr by (simp add: classifyMessages_calls)
    finally show ?thesis .
  qed
qed

text \<open>An account whose search throws leaves the results, the seen set and the cache as they were.\<close>

lemma searchAccounts_reachable:
  "(searchAccounts rt q n targets st)\<lparr>calls := cs\<rparr> =
   (searchAccounts rt q n (filter (reachable rt q n) targets) st)\<lparr>calls := cs\<rparr>"
proof (induction targets arbitrary: st)
  case Nil then show ?case by simp
next
  case (Cons a rest)
  let ?st = "st\<lparr>calls := calls st @ [SearchCall (acc_id a) q (n * 2)]\<rparr>"
  show ?case
  proof (cases "clientSearch rt a q (n * 2)")
    case (Inl e)
    then have r: "\<not> reachable rt q n a" by (simp add: reachable_def)
    have "(searchAccounts rt q n (a # rest) st)\<lparr>calls := cs\<rparr> =
        (searchAccounts rt q n rest ?st)\<lparr>calls := cs\<rparr>"
      using Inl by simp
    also have "\<dots> = (searchAccounts rt q n rest st)\<lparr>calls := cs\<rparr>"
      by (rule searchAccounts_calls)
    also have "\<dots> = (searchAccounts rt q n (filter (reachable rt q n) rest) st)\<lparr>calls := cs\<rparr>"
      by (rule Cons.IH)
    finally show ?thesis using r by simp
  next
    case (Inr msgs)
    then have r: "reachable rt q n a" by (simp add: reachable_def)
    have "(searchAccounts rt q n (a # rest) st)\<lparr>calls := cs\<rparr> =
        (searchAccounts rt q n rest (classifyMessages rt a msgs ?st))\<lparr>calls := cs\<rparr>"
      using Inr by simp
    also have "\<dots> = (searchAccounts rt q n (filter (reachable rt q n) rest)
        (classifyMessages rt a msgs ?st))\<lparr>calls := cs\<rparr>"
      by (rule Cons.IH)
    finally show ?thesis using r Inr by simp
  qed
qed

lemma fanOut_reachable:
  "allResults (fanOut rt w q n targets) =
   allResults (fanOut rt w q n (filter (reachable rt q n) targets))"
proof -
  have "allResults (fanOut rt w q n targets) =
      allResults ((fanOut rt w q n targets)\<lparr>calls := []\<rparr>)" by simp
  also have "\<dots> = allResults ((fanOut rt w q n (filter (reachable rt q n) targets))\<lparr>calls := []\<rparr>)"
    unfolding fanOut_def
    by (rule arg_cong [where f = allResults], rule searchAccounts_reachable)
  finally show ?thesis by simp
qed

lemma fanStream_member:
  "a \<in> set targets \<Longrightarrow> clientSearch rt a q (n * 2) = Inr msgs \<Longrightarrow> m \<in> set msgs \<Longrightarrow>
     (a, m) \<in> set (fanStream rt q n targets)"
  by (force simp: fanStream_def)

text \<open>
  C5 (as amended). When one resolved account's search throws and another's succeeds,
  \<^verbatim>\<open>searchEmails\<close> does not raise, and its output is the ranked list, cut to
  \<^verbatim>\<open>maxResults\<close>, of the classified results of the accounts whose search succeeded: the
  failing account changes nothing. When no classification throws and the deduplicated
  results number at most \<^verbatim>\<open>maxResults\<close>, the output holds a classified result for every
  message the successful account returned.
\<close>

theorem searchEmails_partial_failure:
  assumes "accountA \<in> set (accountsToSearch w (accounts criteria))"
    and "clientSearch rt accountA (query criteria) (resultLimit criteria * 2) = Inl err"
    and "accountB \<in> set (accountsToSearch w (accounts criteria))"
    and "clientSearch rt accountB (query criteria) (resultLimit criteria * 2) = Inr msgs"
  shows "\<exists>out w'. searchEmails rt w criteria = (Inr out, w') \<and>
     out = slice0 (sortByScore (allResults
             (fanOut rt w (query criteria) (resultLimit criteria)
                (filter (reachable rt (query criteria) (resultLimit criteria))
                   (accountsToSearch w (accounts criteria)))))) (resultLimit criteria) \<and>
     ((\<forall>am \<in> set (searchStream rt w criteria).
          \<exists>c. classifyEmail rt (snd am) (fst am) = Inr c) \<and>
      int (length (keepFirst {} (searchStream rt w criteria))) \<le> resultLimit criteria \<longrightarrow>
      (\<forall>m \<in> set msgs. \<exists>e \<in> set out.
         resultKeyOf e = (acc_id accountB, msg_id m) \<and>
         (\<exists>am0. find (\<lambda>x. compositeKey x = (acc_id accountB, msg_id m))
                  (searchStream rt w criteria) = Some am0 \<and> resultOf rt e am0)))"
proof -
  have ne: "accountsToSearch w (accounts criteria) \<noteq> []" using assms(1) by auto
  from searchEmails_targets [OF ne, of rt] obtain w' where
    h: "searchEmails rt w criteria =
      (Inr (slice0 (sortByScore (allResults
           (fanOut rt w (query criteria) (resultLimit criteria)
              (accountsToSearch w (accounts criteria))))) (resultLimit criteria)), w')"
    by blast
  let ?out = "slice0 (sortByScore (allResults
           (fanOut rt w (query criteria) (resultLimit criteria)
              (accountsToSearch w (accounts criteria))))) (resultLimit criteria)"
  have skip: "?out = slice0 (sortByScore (allResults
             (fanOut rt w (query criteria) (resultLimit criteria)
                (filter (reachable rt (query criteria) (resultLimit criteria))
                   (accountsToSearch w (accounts criteria)))))) (resultLimit criteria)"
    using fanOut_reachable [of rt w "query criteria" "resultLimit criteria"
        "accountsToSearch w (accounts criteria)"] by simp
  have full: "\<forall>m \<in> set msgs. \<exists>e \<in> set ?out.
         resultKeyOf e = (acc_id accountB, msg_id m) \<and>
         (\<exists>am0. find (\<lambda>x. compositeKey x = (acc_id accountB, msg_id m))
                  (searchStream rt w criteria) = Some am0 \<and> resultOf rt e am0)"
    if ok: "\<forall>am \<in> set (searchStream rt w criteria).
          \<exists>c. classifyEmail rt (snd am) (fst am) = Inr c"
      and fit: "int (length (keepFirst {} (searchStream rt w criteria))) \<le> resultLimit criteria"
  proof
    fix m assume "m \<in> set msgs"
    with assms(3,4) have am: "(accountB, m) \<in> set (searchStream rt w criteria)"
      unfolding searchStream_def by (rule fanStream_member)
    from searchEmails_complete [OF h ok fit am] obtain e am0 where
      e: "filter (\<lambda>e. resultKeyOf e = compositeKey (accountB, m)) ?out = [e]"
        "find (\<lambda>x. compositeKey x = compositeKey (accountB, m))
           (searchStream rt w criteria) = Some am0"
        "resultOf rt e am0"
      by blast
    have "e \<in> set (filter (\<lambda>e. resultKeyOf e = compositeKey (accountB, m)) ?out)"
      unfolding e(1) by simp
    then have "e \<in> set ?out" "resultKeyOf e = (acc_id accountB, msg_id m)"
      by (simp_all add: compositeKey_def)
    moreover have "find (\<lambda>x. compositeKey x = (acc_id accountB, msg_id m))
        (searchStream rt w criteria) = Some am0"
      using e(2) by (simp add: compositeKey_def)
    ultimately show "\<exists>e \<in> set ?out.
         resultKeyOf e = (acc_id accountB, msg_id m) \<and>
         (\<exists>am0. find (\<lambda>x. compositeKey x = (acc_id accountB, msg_id m))
                  (searchStream rt w criteria) = Some am0 \<and> resultOf rt e am0)"
      using e(3) by blast
  qed
  from h skip full show ?thesis by blast
qed

lemma example_failing:
  "clientSearch exampleRuntime failingAccount (query exampleCriteria)
     (resultLimit exampleCriteria * 2) = Inl (Error ''Gmail search error: 401 Unauthorized'')"
  by code_simp

lemma example_working:
  "clientSearch exampleRuntime workAccount (query exampleCriteria)
     (resultLimit exampleCriteria * 2) = Inr [noteMessage, asapMessage]"
  by code_simp

theorem searchEmails_partial_failure_witness:
  "failingAccount \<in> set (accountsToSearch exampleWorld (accounts exampleCriteria)) \<and>
   workAccount \<in> set (accountsToSearch exampleWorld (accounts exampleCriteria)) \<and>
   (\<exists>out w'. searchEmails exampleRuntime exampleWorld exampleCriteria = (Inr out, w') \<and>
      (\<forall>m \<in> set [noteMessage, asapMessage]. \<exists>e \<in> set out.
         resultKeyOf e = (acc_id workAccount, msg_id m)))"
proof -
  have a: "failingAccount \<in> set (accountsToSearch exampleWorld (accounts exampleCriteria))"
    and b: "workAccount \<in> set (accountsToSearch exampleWorld (accounts exampleCriteria))"
    by (simp_all add: example_targets)
  from searchEmails_partial_failure [OF a example_failing b example_working]
    example_classifies example_fits a b
  show ?thesis by blast
qed

text \<open>
  C5 as stated fails when the ranked list is cut: account 1 throws, account 2 returns two
  messages, and with \<^verbatim>\<open>maxResults = 1\<close> the output holds one of its two classified results.
\<close>

theorem searchEmails_partial_failure_truncated_counterexample:
  "accountsToSearch exampleWorld (Some [1, 2]) = [failingAccount, workAccount] \<and>
   clientSearch exampleRuntime failingAccount ''deal'' 2 =
     Inl (Error ''Gmail search error: 401 Unauthorized'') \<and>
   clientSearch exampleRuntime workAccount ''deal'' 2 = Inr [noteMessage, asapMessage] \<and>
   fst (searchEmails exampleRuntime exampleWorld
          (exampleCriteria\<lparr>accounts := Some [1, 2], maxResults := Some 1\<rparr>)) =
     Inr [classified workAccount asapMessage
            \<lparr> isUrgent = False, isImportant = False, urgencyScore = 0.15,
              importanceScore = 0.15,
              reasons = [urgentReason ''asap'', importantReason ''deal''] \<rparr>]"
  by code_simp

section \<open>Ranking\<close>




section \<open>No accounts, and accounts that all fail\<close>

lemma fanOut_nobody: "allResults (fanOut rt w q n []) = []"
  by (simp add: fanOut_def)

lemma getUrgent_active:
  "listActiveAccounts w \<noteq> [] \<Longrightarrow> \<exists>r w'. getUrgentAndImportantEmails rt w n = (Inr r, w')"
  by (simp add: getUrgentAndImportantEmails_def Let_def)

text \<open>
  C7 (as amended). \<^verbatim>\<open>searchEmails\<close> raises \<^verbatim>\<open>No email accounts available for search\<close> exactly
  when the resolved account list is empty (nothing configured, nothing active, or none of
  the listed ids resolves), and \<^verbatim>\<open>getUrgentAndImportantEmails\<close> raises
  \<^verbatim>\<open>No email accounts configured\<close> exactly when no account is active; the message does not
  tell these causes apart. When accounts resolve, the call returns a result, and when
  every one of them fails in its provider call the search returns the empty list.
\<close>

theorem no_accounts_error:
  "(accountsToSearch w (accounts criteria) = [] \<longrightarrow>
      searchEmails rt w criteria =
        (Inl (Error ''No email accounts available for search''), w)) \<and>
   (accountsToSearch w (accounts criteria) \<noteq> [] \<longrightarrow>
      (\<exists>out w'. searchEmails rt w criteria = (Inr out, w'))) \<and>
   (accountsToSearch w (accounts criteria) \<noteq> [] \<and>
    (\<forall>a \<in> set (accountsToSearch w (accounts criteria)).
       \<not> reachable rt (query criteria) (resultLimit criteria) a) \<longrightarrow>
      fst (searchEmails rt w criteria) = Inr []) \<and>
   (listActiveAccounts w = [] \<longrightarrow>
      getUrgentAndImportantEmails rt w n = (Inl (Error ''No email accounts configured''), w)) \<and>
   (listActiveAccounts w \<noteq> [] \<longrightarrow>
      (\<exists>r w'. getUrgentAndImportantEmails rt w n = (Inr r, w')))"
proof (intro conjI impI)
  assume "accountsToSearch w (accounts criteria) = []"
  then show "searchEmails rt w criteria =
      (Inl (Error ''No email accounts available for search''), w)"
    by (simp add: searchEmails_def Let_def)
next
  assume "accountsToSearch w (accounts criteria) \<noteq> []"
  from searchEmails_targets [OF this]
  show "\<exists>out w'. searchEmails rt w criteria = (Inr out, w')" by blast
next
  assume h: "accountsToSearch w (accounts criteria) \<noteq> [] \<and>
    (\<forall>a \<in> set (accountsToSearch w (accounts criteria)).
       \<not> reachable rt (query criteria) (resultLimit criteria) a)"
  then have "filter (reachable rt (query criteria) (resultLimit criteria))
      (accountsToSearch w (accounts criteria)) = []"
    by (simp add: filter_empty_conv)
  then have "allResults (fanOut rt w (query criteria) (resultLimit criteria)
      (accountsToSearch w (accounts criteria))) = []"
    using fanOut_reachable [of rt w "query criteria" "resultLimit criteria"
        "accountsToSearch w (accounts criteria)"]
    by (simp add: fanOut_nobody)
  moreover from h searchEmails_targets [of w criteria rt] obtain w' where
    "searchEmails rt w criteria =
     (Inr (slice0 (sortByScore (allResults
           (fanOut rt w (query criteria) (resultLimit criteria)
              (accountsToSearch w (accounts criteria))))) (resultLimit criteria)), w')"
    by blast
  ultimately show "fst (searchEmails rt w criteria) = Inr []"
    by (simp add: sortByScore_def slice0_def)
next
  assume "listActiveAccounts w = []"
  then show "getUrgentAndImportantEmails rt w n =
      (Inl (Error ''No email accounts configured''), w)"
    by (simp add: getUrgentAndImportantEmails_def Let_def)
next
  assume "listActiveAccounts w \<noteq> []"
  then show "\<exists>r w'. getUrgentAndImportantEmails rt w n = (Inr r, w')"
    by (rule getUrgent_active)
qed

theorem no_accounts_error_witness:
  "searchEmails exampleRuntime (exampleWorld\<lparr>email_accounts := []\<rparr>) exampleCriteria =
     (Inl (Error ''No email accounts available for search''),
      exampleWorld\<lparr>email_accounts := []\<rparr>) \<and>
   (\<exists>out w'. searchEmails exampleRuntime exampleWorld exampleCriteria = (Inr out, w')) \<and>
   fst (searchEmails exampleRuntime exampleWorld (exampleCriteria\<lparr>accounts := Some [1]\<rparr>)) =
     Inr [] \<and>
   getUrgentAndImportantEmails exampleRuntime (exampleWorld\<lparr>email_accounts := []\<rparr>) 20 =
     (Inl (Error ''No email accounts configured''), exampleWorld\<lparr>email_accounts := []\<rparr>) \<and>
   (\<exists>r w'. getUrgentAndImportantEmails exampleRuntime exampleWorld 20 = (Inr r, w'))"
proof -
  have e: "accountsToSearch (exampleWorld\<lparr>email_accounts := []\<rparr>) (accounts exampleCriteria) = []"
    by (simp add: accountsToSearch_def exampleCriteria_def listActiveAccounts_def)
  have t: "accountsToSearch exampleWorld (accounts exampleCriteria) \<noteq> []"
    by (simp add: example_targets)
  have one: "accountsToSearch exampleWorld (accounts (exampleCriteria\<lparr>accounts := Some [1]\<rparr>)) =
      [failingAccount]"
    by code_simp
  have f: "accountsToSearch exampleWorld (accounts (exampleCriteria\<lparr>accounts := Some [1]\<rparr>)) \<noteq> [] \<and>
    (\<forall>a \<in> set (accountsToSearch exampleWorld (accounts (exampleCriteria\<lparr>accounts := Some [1]\<rparr>))).
       \<not> reachable exampleRuntime (query (exampleCriteria\<lparr>accounts := Some [1]\<rparr>))
            (resultLimit (exampleCriteria\<lparr>accounts := Some [1]\<rparr>)) a)"
    unfolding one
    by (simp add: reachable_def clientSearch_def gmailSearch_def failingAccount_def
        exampleRuntime_def)
  have la: "listActiveAccounts (exampleWorld\<lparr>email_accounts := []\<rparr>) = []"
    by (simp add: listActiveAccounts_def)
  have lb: "listActiveAccounts exampleWorld \<noteq> []"
    by (simp add: listActiveAccounts_def exampleWorld_def homeAccount_def)
  from no_accounts_error
        [of "exampleWorld\<lparr>email_accounts := []\<rparr>" exampleCriteria exampleRuntime 20] e la
  have 1: "searchEmails exampleRuntime (exampleWorld\<lparr>email_accounts := []\<rparr>) exampleCriteria =
     (Inl (Error ''No email accounts available for search''),
      exampleWorld\<lparr>email_accounts := []\<rparr>)"
    and 4: "getUrgentAndImportantEmails exampleRuntime (exampleWorld\<lparr>email_accounts := []\<rparr>) 20 =
     (Inl (Error ''No email accounts configured''), exampleWorld\<lparr>email_accounts := []\<rparr>)"
    by blast+
  from no_accounts_error [of exampleWorld exampleCriteria exampleRuntime 20] t lb
  have 2: "\<exists>out w'. searchEmails exampleRuntime exampleWorld exampleCriteria = (Inr out, w')"
    and 5: "\<exists>r w'. getUrgentAndImportantEmails exampleRuntime exampleWorld 20 = (Inr r, w')"
    by blast+
  from no_accounts_error
        [of exampleWorld "exampleCriteria\<lparr>accounts := Some [1]\<rparr>" exampleRuntime 20] f
  have 3: "fst (searchEmails exampleRuntime exampleWorld
      (exampleCriteria\<lparr>accounts := Some [1]\<rparr>)) = Inr []"
    by blast
  from 1 2 3 4 5 show ?thesis by blast
qed

text \<open>
  C7 as stated fails when every account is unreachable: the only account searched throws
  in its provider call, and \<^verbatim>\<open>searchEmails\<close> returns an ordinary empty result.
\<close>

theorem all_unreachable_counterexample:
  "accountsToSearch exampleWorld (Some [1]) = [failingAccount] \<and>
   clientSearch exampleRuntime failingAccount ''deal'' 20 =
     Inl (Error ''Gmail search error: 401 Unauthorized'') \<and>
   searchEmails exampleRuntime exampleWorld (exampleCriteria\<lparr>accounts := Some [1]\<rparr>) =
     (Inr [], exampleWorld\<lparr>providerCalls := [SearchCall 1 ''deal'' 20]\<rparr>)"
  by code_simp

section \<open>The tool handlers\<close>

lemma classifyMessages_keeps_calls: "calls (classifyMessages rt a msgs st) = calls st"
proof -
  have "classifyMessages rt a msgs (st\<lparr>calls := calls st\<rparr>) =
      (classifyMessages rt a msgs st)\<lparr>calls := calls st\<rparr>"
    by (rule classifyMessages_calls)
  then have "classifyMessages rt a msgs st = (classifyMessages rt a msgs st)\<lparr>calls := calls st\<rparr>"
    by simp
  then have "calls (classifyMessages rt a msgs st) =
      calls ((classifyMessages rt a msgs st)\<lparr>calls := calls st\<rparr>)"
    by (rule arg_cong)
  then show ?thesis by simp
qed

text \<open>Every resolved account's client is called once, in order.\<close>

lemma searchAccounts_log:
  "calls (searchAccounts rt q n targets st) =
     calls st @ map (\<lambda>a. SearchCall (acc_id a) q (n * 2)) targets"
proof (induction targets arbitrary: st)
  case Nil then show ?case by simp
next
  case (Cons a rest)
  show ?case
    by (cases "clientSearch rt a q (n * 2)")
       (simp_all add: Cons.IH classifyMessages_keeps_calls)
qed

lemma bucketMessages_keeps_calls: "fetchCalls (bucketMessages rt a msgs st) = fetchCalls st"
proof (induction msgs arbitrary: st)
  case Nil then show ?case by simp
next
  case (Cons m ms)
  show ?case
  proof (cases "resultKey (acc_id a) (msg_id m) \<in> seenKeys st")
    case True
    with Cons show ?thesis by simp
  next
    case False
    then show ?thesis
      by (cases "classifyEmail rt m a") (simp_all add: Cons.IH)
  qed
qed

lemma fetchAccounts_log:
  "fetchCalls (fetchAccounts rt n targets st) =
     fetchCalls st @ map (\<lambda>a. UrgentCall (acc_id a) (n * 2)) targets"
proof (induction targets arbitrary: st)
  case Nil then show ?case by simp
next
  case (Cons a rest)
  show ?case by (simp add: Cons.IH bucketMessages_keeps_calls)
qed

lemma searchEmails_log:
  "searchEmails rt w criteria = (Inr out, w') \<Longrightarrow>
     providerCalls w' = providerCalls w @
       map (\<lambda>a. SearchCall (acc_id a) (query criteria) (resultLimit criteria * 2))
         (accountsToSearch w (accounts criteria))"
  by (auto simp: searchEmails_def Let_def fanOut_def searchAccounts_log split: if_splits)

lemma getUrgent_log:
  "getUrgentAndImportantEmails rt w n = (Inr r, w') \<Longrightarrow>
     providerCalls w' = providerCalls w @
       map (\<lambda>a. UrgentCall (acc_id a) (n * 2)) (listActiveAccounts w)"
  by (auto simp: getUrgentAndImportantEmails_def Let_def fetchAccounts_log split: if_splits)

text \<open>
  C9. A \<^verbatim>\<open>searchEmails\<close> or \<^verbatim>\<open>getUrgentEmails\<close> request with \<^verbatim>\<open>maxResults\<close> above 500 is
  rejected with an error and leaves the world as it was: the accounts with their sync
  times, the result cache, and the record of provider calls, to which nothing is added.
  A request that is accepted and returns has called the client of every resolved account.
\<close>

theorem maxResults_limit:
  "(sp_maxResults params = Some m \<and> 500 < m \<longrightarrow>
      (\<exists>msg. searchEmailsHandler rt w params = (Inl (Error msg), w)) \<and>
      (truthyS (sp_query params) \<longrightarrow>
         searchEmailsHandler rt w params = (Inl (Error ''maxResults cannot exceed 500''), w))) \<and>
   (up_maxResults uparams = Some m \<and> 500 < m \<longrightarrow>
      getUrgentEmailsHandler rt w uparams =
        (Inl (Error ''maxResults cannot exceed 500''), w)) \<and>
   (searchEmailsHandler rt w params = (Inr out, w') \<longrightarrow>
      providerCalls w' = providerCalls w @
        map (\<lambda>a. SearchCall (acc_id a) (optString (sp_query params))
                  ((case sp_maxResults params of None \<Rightarrow> 50 | Some k \<Rightarrow> k) * 2))
          (accountsToSearch w (sp_accounts params)))"
proof (intro conjI impI)
  assume "sp_maxResults params = Some m \<and> 500 < m"
  then show "\<exists>msg. searchEmailsHandler rt w params = (Inl (Error msg), w)"
    by (simp add: searchEmailsHandler_def)
next
  assume "sp_maxResults params = Some m \<and> 500 < m" and "truthyS (sp_query params)"
  then show "searchEmailsHandler rt w params =
      (Inl (Error ''maxResults cannot exceed 500''), w)"
    by (simp add: searchEmailsHandler_def)
next
  assume "up_maxResults uparams = Some m \<and> 500 < m"
  then show "getUrgentEmailsHandler rt w uparams =
      (Inl (Error ''maxResults cannot exceed 500''), w)"
    by (simp add: getUrgentEmailsHandler_def)
next
  let ?n = "case sp_maxResults params of None \<Rightarrow> 50 | Some k \<Rightarrow> k"
  let ?criteria = "\<lparr> query = optString (sp_query params),
                     accounts = sp_accounts params,
                     mailboxes = sp_mailboxes params,
                     maxResults = Some ?n,
                     minUrgencyScore = sp_minUrgencyScore params,
                     minImportanceScore = sp_minImportanceScore params \<rparr>"
  assume h: "searchEmailsHandler rt w params = (Inr out, w')"
  then obtain results where "searchEmails rt w ?criteria = (Inr results, w')"
    by (auto simp: searchEmailsHandler_def Let_def split: if_splits sum.splits prod.splits)
  from searchEmails_log [OF this]
  show "providerCalls w' = providerCalls w @
        map (\<lambda>a. SearchCall (acc_id a) (optString (sp_query params)) (?n * 2))
          (accountsToSearch w (sp_accounts params))"
    by (simp add: resultLimit_def)
qed

lemma example_accepted:
  "searchEmailsHandler exampleRuntime exampleWorld (searchParams\<lparr>sp_maxResults := Some 1\<rparr>) =
     (Inr [classified workAccount asapMessage
            \<lparr> isUrgent = False, isImportant = False, urgencyScore = 0.15,
              importanceScore = 0.15,
              reasons = [urgentReason ''asap'', importantReason ''deal''] \<rparr>],
      snd (searchEmailsHandler exampleRuntime exampleWorld
             (searchParams\<lparr>sp_maxResults := Some 1\<rparr>)))"
  by code_simp

theorem maxResults_limit_witness:
  "sp_maxResults searchParams = Some 501 \<and> truthyS (sp_query searchParams) \<and>
   searchEmailsHandler exampleRuntime exampleWorld searchParams =
     (Inl (Error ''maxResults cannot exceed 500''), exampleWorld) \<and>
   up_maxResults (urgentParams\<lparr>up_maxResults := Some 501\<rparr>) = Some 501 \<and>
   getUrgentEmailsHandler exampleRuntime exampleWorld (urgentParams\<lparr>up_maxResults := Some 501\<rparr>) =
     (Inl (Error ''maxResults cannot exceed 500''), exampleWorld) \<and>
   providerCalls (snd (searchEmailsHandler exampleRuntime exampleWorld
             (searchParams\<lparr>sp_maxResults := Some 1\<rparr>))) =
     providerCalls exampleWorld @
        map (\<lambda>a. SearchCall (acc_id a) (optString (sp_query (searchParams\<lparr>sp_maxResults := Some 1\<rparr>)))
                  ((case sp_maxResults (searchParams\<lparr>sp_maxResults := Some 1\<rparr>) of
                      None \<Rightarrow> 50 | Some k \<Rightarrow> k) * 2))
          (accountsToSearch exampleWorld (sp_accounts (searchParams\<lparr>sp_maxResults := Some 1\<rparr>)))"
proof -
  have a: "sp_maxResults searchParams = Some 501 \<and> (500::int) < 501"
    by (simp add: searchParams_def)
  have q: "truthyS (sp_query searchParams)"
    by (simp add: searchParams_def truthyS_def)
  have b: "up_maxResults (urgentParams\<lparr>up_maxResults := Some 501\<rparr>) = Some 501 \<and> (500::int) < 501"
    by simp
  from maxResults_limit [of searchParams 501 exampleRuntime exampleWorld
      "urgentParams\<lparr>up_maxResults := Some 501\<rparr>"] a q b
  have 1: "searchEmailsHandler exampleRuntime exampleWorld searchParams =
     (Inl (Error ''maxResults cannot exceed 500''), exampleWorld)"
    and 2: "getUrgentEmailsHandler exampleRuntime exampleWorld
        (urgentParams\<lparr>up_maxResults := Some 501\<rparr>) =
     (Inl (Error ''maxResults cannot exceed 500''), exampleWorld)"
    by blast+
  from maxResults_limit [THEN conjunct2, THEN conjunct2, THEN mp, OF example_accepted]
  have 3: "providerCalls (snd (searchEmailsHandler exampleRuntime exampleWorld
             (searchParams\<lparr>sp_maxResults := Some 1\<rparr>))) =
     providerCalls exampleWorld @
        map (\<lambda>a. SearchCall (acc_id a) (optString (sp_query (searchParams\<lparr>sp_maxResults := Some 1\<rparr>)))
                  ((case sp_maxResults (searchParams\<lparr>sp_maxResults := Some 1\<rparr>) of
                      None \<Rightarrow> 50 | Some k \<Rightarrow> k) * 2))
          (accountsToSearch exampleWorld (sp_accounts (searchParams\<lparr>sp_maxResults := Some 1\<rparr>)))" .
  from a q b 1 2 3 show ?thesis by blast
qed

text \<open>
  C10. The \<^verbatim>\<open>getUrgentEmails\<close> handler never reads its \<^verbatim>\<open>accounts\<close> parameter: two requests
  that differ in it alone have the same outcome, and a request that returns has called
  \<^verbatim>\<open>getUrgentEmails\<close> on the client of every active account, and of no other.
\<close>

theorem getUrgentEmails_ignores_accounts:
  "getUrgentEmailsHandler rt w (params\<lparr>up_accounts := ids\<rparr>) =
     getUrgentEmailsHandler rt w params \<and>
   (getUrgentEmailsHandler rt w params = (Inr r, w') \<longrightarrow>
      providerCalls w' = providerCalls w @
        map (\<lambda>a. UrgentCall (acc_id a)
                  ((case up_maxResults params of None \<Rightarrow> 20 | Some k \<Rightarrow> k) * 2))
          (listActiveAccounts w))"
proof (intro conjI impI)
  show "getUrgentEmailsHandler rt w (params\<lparr>up_accounts := ids\<rparr>) =
     getUrgentEmailsHandler rt w params"
    by (simp add: getUrgentEmailsHandler_def)
next
  let ?n = "case up_maxResults params of None \<Rightarrow> 20 | Some k \<Rightarrow> k"
  assume "getUrgentEmailsHandler rt w params = (Inr r, w')"
  then obtain r0 where "getUrgentAndImportantEmails rt w ?n = (Inr r0, w')"
    by (auto simp: getUrgentEmailsHandler_def Let_def split: if_splits sum.splits prod.splits)
  then show "providerCalls w' = providerCalls w @
        map (\<lambda>a. UrgentCall (acc_id a) (?n * 2)) (listActiveAccounts w)"
    by (rule getUrgent_log)
qed

lemma example_urgent:
  "getUrgentEmailsHandler exampleRuntime exampleWorld urgentParams =
     (Inr ([], []),
      exampleWorld\<lparr>providerCalls := [UrgentCall 3 40, UrgentCall 2 40, UrgentCall 1 40]\<rparr>)"
  by code_simp

theorem getUrgentEmails_ignores_accounts_witness:
  "getUrgentEmailsHandler exampleRuntime exampleWorld (urgentParams\<lparr>up_accounts := Some [2]\<rparr>) =
     getUrgentEmailsHandler exampleRuntime exampleWorld urgentParams \<and>
   getUrgentEmailsHandler exampleRuntime exampleWorld urgentParams =
     (Inr ([], []),
      exampleWorld\<lparr>providerCalls := [UrgentCall 3 40, UrgentCall 2 40, UrgentCall 1 40]\<rparr>) \<and>
   providerCalls
     (exampleWorld\<lparr>providerCalls := [UrgentCall 3 40, UrgentCall 2 40, UrgentCall 1 40]\<rparr>) =
     providerCalls exampleWorld @
        map (\<lambda>a. UrgentCall (acc_id a)
                  ((case up_maxResults urgentParams of None \<Rightarrow> 20 | Some k \<Rightarrow> k) * 2))
          (listActiveAccounts exampleWorld)"
proof -
  note t = getUrgentEmails_ignores_accounts
      [of exampleRuntime exampleWorld "Some [2]" urgentParams]
  from t [THEN conjunct1] t [THEN conjunct2, THEN mp, OF example_urgent] example_urgent
  show ?thesis by blast
qed

lemma addAccount_fresh:
  assumes "parseProvider (cfg_provider config) = Some prov"
    and "cfg_accountName config \<notin> accountName ` set (email_accounts w)"
  shows "\<exists>account. addAccount w config =
           (Inr account, w\<lparr>email_accounts := account # email_accounts w,
                           nextRowid := nextRowid w + 1\<rparr>) \<and>
         acc_id account = nextRowid w \<and> accountName account = cfg_accountName config \<and>
         email account = cfg_email config \<and> provider account = prov \<and>
         providerConfig account = cfg_providerConfig config \<and> isActive account"
proof -
  have "\<not> (\<exists>a \<in> set (email_accounts w). accountName a = cfg_accountName config)"
    using assms(2) by (metis imageI)
  then show ?thesis
    using assms(1) by (simp add: addAccount_def getAccountById_def Let_def)
qed

lemma addAccount_taken:
  assumes "parseProvider (cfg_provider config) = Some prov"
    and "cfg_accountName config \<in> accountName ` set (email_accounts w)"
  shows "addAccount w config =
     (Inl (Error (''Account name '' @ quoted (cfg_accountName config) @ '' already exists'')), w)"
proof -
  have "\<exists>a \<in> set (email_accounts w). accountName a = cfg_accountName config"
    using assms(2) by auto
  then show ?thesis using assms(1) by (simp add: addAccount_def)
qed

text \<open>
  C8. The add-account handler checks the provider's required fields before it stores
  anything: an IMAP request without host, port, username or password, and a Gmail request
  without a refresh token, are rejected with an error and the accounts are left as they
  were. An IMAP request with the four fields, a name and an email address, under a name
  not yet taken, succeeds: it stores the account and returns its id, under which the
  account is found. A request that passes the checks under a name already taken is
  rejected with \<^verbatim>\<open>Account name "..." already exists\<close>.
\<close>

theorem addEmailAccount_validation:
  "(p_provider params = Some ''imap'' \<and>
    (\<not> truthyS (p_host params) \<or> \<not> truthyN (p_port params) \<or>
     \<not> truthyS (p_username params) \<or> \<not> truthyS (p_password params)) \<longrightarrow>
      (\<exists>msg. addEmailAccount w params = (Inl (Error msg), w)) \<and>
      (truthyS (p_accountName params) \<and> truthyS (p_email params) \<longrightarrow>
         addEmailAccount w params =
           (Inl (Error ''IMAP provider requires host, port, username, password''), w))) \<and>
   (p_provider params = Some ''gmail'' \<and> \<not> truthyS (p_refreshToken params) \<longrightarrow>
      (\<exists>msg. addEmailAccount w params = (Inl (Error msg), w)) \<and>
      (truthyS (p_accountName params) \<and> truthyS (p_email params) \<longrightarrow>
         addEmailAccount w params =
           (Inl (Error ''Gmail provider requires refreshToken''), w))) \<and>
   (p_provider params = Some ''imap'' \<and> truthyS (p_host params) \<and> truthyN (p_port params) \<and>
    truthyS (p_username params) \<and> truthyS (p_password params) \<and>
    truthyS (p_accountName params) \<and> truthyS (p_email params) \<and>
    optString (p_accountName params) \<notin> accountName ` set (email_accounts w) \<longrightarrow>
      (\<exists>r w' account.
         addEmailAccount w params = (Inr r, w') \<and> r_accountId r = nextRowid w \<and>
         getAccountById w' (r_accountId r) = Some account \<and>
         accountName account = optString (p_accountName params) \<and>
         provider account = Imap \<and>
         providerConfig account =
           ImapConfig (p_host params) (p_port params) (p_username params)
             (p_password params) True \<and>
         isActive account \<and>
         email_accounts w' = account # email_accounts w)) \<and>
   (truthyS (p_accountName params) \<and> truthyS (p_email params) \<and>
    (p_provider params = Some ''gmail'' \<and> truthyS (p_refreshToken params) \<or>
     p_provider params = Some ''imap'' \<and> truthyS (p_host params) \<and>
     truthyN (p_port params) \<and> truthyS (p_username params) \<and> truthyS (p_password params)) \<and>
    optString (p_accountName params) \<in> accountName ` set (email_accounts w) \<longrightarrow>
      addEmailAccount w params =
        (Inl (Error (''Account name '' @ quoted (optString (p_accountName params)) @
                     '' already exists'')), w))"
proof (intro conjI impI)
  assume h: "p_provider params = Some ''imap'' \<and>
    (\<not> truthyS (p_host params) \<or> \<not> truthyN (p_port params) \<or>
     \<not> truthyS (p_username params) \<or> \<not> truthyS (p_password params))"
  then show "\<exists>msg. addEmailAccount w params = (Inl (Error msg), w)"
    by (auto simp: addEmailAccount_def)
  assume "truthyS (p_accountName params) \<and> truthyS (p_email params)"
  with h show "addEmailAccount w params =
      (Inl (Error ''IMAP provider requires host, port, username, password''), w)"
    by (auto simp: addEmailAccount_def truthyS_def)
next
  assume h: "p_provider params = Some ''gmail'' \<and> \<not> truthyS (p_refreshToken params)"
  then show "\<exists>msg. addEmailAccount w params = (Inl (Error msg), w)"
    by (auto simp: addEmailAccount_def)
  assume "truthyS (p_accountName params) \<and> truthyS (p_email params)"
  with h show "addEmailAccount w params =
      (Inl (Error ''Gmail provider requires refreshToken''), w)"
    by (auto simp: addEmailAccount_def truthyS_def)
next
  assume h: "p_provider params = Some ''imap'' \<and> truthyS (p_host params) \<and>
    truthyN (p_port params) \<and> truthyS (p_username params) \<and> truthyS (p_password params) \<and>
    truthyS (p_accountName params) \<and> truthyS (p_email params) \<and>
    optString (p_accountName params) \<notin> accountName ` set (email_accounts w)"
  let ?config = "\<lparr> cfg_accountName = optString (p_accountName params),
                cfg_email = optString (p_email params),
                cfg_provider = optString (p_provider params),
                cfg_providerConfig =
                  ImapConfig (p_host params) (p_port params) (p_username params)
                    (p_password params) True,
                cfg_defaultMailbox = p_defaultMailbox params,
                cfg_customUrgentKeywords = p_customUrgentKeywords params,
                cfg_customImportantKeywords = p_customImportantKeywords params \<rparr>"
  have p: "parseProvider (cfg_provider ?config) = Some Imap"
    using h by (simp add: parseProvider_def optString_def)
  have f: "cfg_accountName ?config \<notin> accountName ` set (email_accounts w)"
    using h by simp
  from addAccount_fresh [OF p f] obtain account where
    a: "addAccount w ?config =
          (Inr account, w\<lparr>email_accounts := account # email_accounts w,
                          nextRowid := nextRowid w + 1\<rparr>)"
      "acc_id account = nextRowid w" "accountName account = optString (p_accountName params)"
      "provider account = Imap"
      "providerConfig account = ImapConfig (p_host params) (p_port params)
         (p_username params) (p_password params) True"
      "isActive account"
    by auto
  let ?w = "w\<lparr>email_accounts := account # email_accounts w, nextRowid := nextRowid w + 1\<rparr>"
  let ?r = "\<lparr> r_accountId = acc_id account, r_accountName = accountName account,
             r_email = email account, r_provider = provider account,
             r_message = ''Email account '' @ quoted (optString (p_accountName params)) @
                         '' added successfully'' \<rparr>"
  have "truthyS (p_provider params)" using h by (simp add: truthyS_def)
  then have "addEmailAccount w params = (Inr ?r, ?w)"
    using h a(1) by (simp add: addEmailAccount_def)
  moreover have "getAccountById ?w (r_accountId ?r) = Some account"
    by (simp add: getAccountById_def)
  ultimately show "\<exists>r w' account.
         addEmailAccount w params = (Inr r, w') \<and> r_accountId r = nextRowid w \<and>
         getAccountById w' (r_accountId r) = Some account \<and>
         accountName account = optString (p_accountName params) \<and>
         provider account = Imap \<and>
         providerConfig account =
           ImapConfig (p_host params) (p_port params) (p_username params)
             (p_password params) True \<and>
         isActive account \<and>
         email_accounts w' = account # email_accounts w"
    using a(2-6) by (intro exI [of _ ?r] exI [of _ ?w] exI [of _ account]) simp
next
  assume h: "truthyS (p_accountName params) \<and> truthyS (p_email params) \<and>
    (p_provider params = Some ''gmail'' \<and> truthyS (p_refreshToken params) \<or>
     p_provider params = Some ''imap'' \<and> truthyS (p_host params) \<and>
     truthyN (p_port params) \<and> truthyS (p_username params) \<and> truthyS (p_password params)) \<and>
    optString (p_accountName params) \<in> accountName ` set (email_accounts w)"
  let ?config = "\<lparr> cfg_accountName = optString (p_accountName params),
                cfg_email = optString (p_email params),
                cfg_provider = optString (p_provider params),
                cfg_providerConfig =
                  (if p_provider params = Some ''gmail''
                   then GmailConfig (p_refreshToken params)
                   else ImapConfig (p_host params) (p_port params) (p_username params)
                          (p_password params) True),
                cfg_defaultMailbox = p_defaultMailbox params,
                cfg_customUrgentKeywords = p_customUrgentKeywords params,
                cfg_customImportantKeywords = p_customImportantKeywords params \<rparr>"
  from h obtain prov where p: "parseProvider (cfg_provider ?config) = Some prov"
    by (auto simp: parseProvider_def optString_def)
  have t: "cfg_accountName ?config \<in> accountName ` set (email_accounts w)"
    using h by simp
  have checks: "truthyS (p_provider params)"
      "\<not> (p_provider params = Some ''gmail'' \<and> \<not> truthyS (p_refreshToken params))"
      "\<not> (p_provider params = Some ''imap'' \<and>
              (\<not> truthyS (p_host params) \<or> \<not> truthyN (p_port params) \<or>
               \<not> truthyS (p_username params) \<or> \<not> truthyS (p_password params)))"
    using h by (auto simp: truthyS_def)
  show "addEmailAccount w params =
        (Inl (Error (''Account name '' @ quoted (optString (p_accountName params)) @
                     '' already exists'')), w)"
    using h checks addAccount_taken [OF p t]
    by (simp add: addEmailAccount_def)
qed

theorem addEmailAccount_validation_witness:
  "addEmailAccount exampleWorld (imapParams\<lparr>p_host := None\<rparr>) =
     (Inl (Error ''IMAP provider requires host, port, username, password''), exampleWorld) \<and>
   addEmailAccount exampleWorld (imapParams\<lparr>p_provider := Some ''gmail''\<rparr>) =
     (Inl (Error ''Gmail provider requires refreshToken''), exampleWorld) \<and>
   (\<exists>r w' account.
      addEmailAccount exampleWorld imapParams = (Inr r, w') \<and>
      r_accountId r = nextRowid exampleWorld \<and>
      getAccountById w' (r_accountId r) = Some account \<and>
      accountName account = optString (p_accountName imapParams) \<and>
      provider account = Imap \<and>
      providerConfig account =
        ImapConfig (p_host imapParams) (p_port imapParams) (p_username imapParams)
          (p_password imapParams) True \<and>
      isActive account \<and>
      email_accounts w' = account # email_accounts exampleWorld) \<and>
   addEmailAccount exampleWorld (imapParams\<lparr>p_accountName := Some ''Work''\<rparr>) =
     (Inl (Error (''Account name '' @
                  quoted (optString (p_accountName (imapParams\<lparr>p_accountName := Some ''Work''\<rparr>))) @
                  '' already exists'')), exampleWorld)"
proof -
  have names: "accountName ` set (email_accounts exampleWorld) = {''Home'', ''Work'', ''Old''}"
    by (simp add: exampleWorld_def homeAccount_def workAccount_def failingAccount_def)
  have h1: "p_provider (imapParams\<lparr>p_host := None\<rparr>) = Some ''imap'' \<and>
    (\<not> truthyS (p_host (imapParams\<lparr>p_host := None\<rparr>)) \<or>
     \<not> truthyN (p_port (imapParams\<lparr>p_host := None\<rparr>)) \<or>
     \<not> truthyS (p_username (imapParams\<lparr>p_host := None\<rparr>)) \<or>
     \<not> truthyS (p_password (imapParams\<lparr>p_host := None\<rparr>)))"
    by (simp add: imapParams_def truthyS_def)
  have h1b: "truthyS (p_accountName (imapParams\<lparr>p_host := None\<rparr>)) \<and>
    truthyS (p_email (imapParams\<lparr>p_host := None\<rparr>))"
    by (simp add: imapParams_def truthyS_def)
  have h2: "p_provider (imapParams\<lparr>p_provider := Some ''gmail''\<rparr>) = Some ''gmail'' \<and>
    \<not> truthyS (p_refreshToken (imapParams\<lparr>p_provider := Some ''gmail''\<rparr>))"
    by (simp add: imapParams_def truthyS_def)
  have h2b: "truthyS (p_accountName (imapParams\<lparr>p_provider := Some ''gmail''\<rparr>)) \<and>
    truthyS (p_email (imapParams\<lparr>p_provider := Some ''gmail''\<rparr>))"
    by (simp add: imapParams_def truthyS_def)
  have h3: "p_provider imapParams = Some ''imap'' \<and> truthyS (p_host imapParams) \<and>
    truthyN (p_port imapParams) \<and> truthyS (p_username imapParams) \<and>
    truthyS (p_password imapParams) \<and> truthyS (p_accountName imapParams) \<and>
    truthyS (p_email imapParams) \<and>
    optString (p_accountName imapParams) \<notin> accountName ` set (email_accounts exampleWorld)"
    unfolding names by (simp add: imapParams_def truthyS_def truthyN_def optString_def)
  have h4: "truthyS (p_accountName (imapParams\<lparr>p_accountName := Some ''Work''\<rparr>)) \<and>
    truthyS (p_email (imapParams\<lparr>p_accountName := Some ''Work''\<rparr>)) \<and>
    (p_provider (imapParams\<lparr>p_accountName := Some ''Work''\<rparr>) = Some ''gmail'' \<and>
       truthyS (p_refreshToken (imapParams\<lparr>p_accountName := Some ''Work''\<rparr>)) \<or>
     p_provider (imapParams\<lparr>p_accountName := Some ''Work''\<rparr>) = Some ''imap'' \<and>
       truthyS (p_host (imapParams\<lparr>p_accountName := Some ''Work''\<rparr>)) \<and>
       truthyN (p_port (imapParams\<lparr>p_accountName := Some ''Work''\<rparr>)) \<and>
       truthyS (p_username (imapParams\<lparr>p_accountName := Some ''Work''\<rparr>)) \<and>
       truthyS (p_password (imapParams\<lparr>p_accountName := Some ''Work''\<rparr>))) \<and>
    optString (p_accountName (imapParams\<lparr>p_accountName := Some ''Work''\<rparr>))
      \<in> accountName ` set (email_accounts exampleWorld)"
    unfolding names by (simp add: imapParams_def truthyS_def truthyN_def optString_def)
  note t = addEmailAccount_validation
  from t [of "imapParams\<lparr>p_host := None\<rparr>" exampleWorld,
          THEN conjunct1, THEN mp, OF h1, THEN conjunct2, THEN mp, OF h1b]
  have a: "addEmailAccount exampleWorld (imapParams\<lparr>p_host := None\<rparr>) =
     (Inl (Error ''IMAP provider requires host, port, username, password''), exampleWorld)" .
  from t [of "imapParams\<lparr>p_provider := Some ''gmail''\<rparr>" exampleWorld,
          THEN conjunct2, THEN conjunct1, THEN mp, OF h2, THEN conjunct2, THEN mp, OF h2b]
  have b: "addEmailAccount exampleWorld (imapParams\<lparr>p_provider := Some ''gmail''\<rparr>) =
     (Inl (Error ''Gmail provider requires refreshToken''), exampleWorld)" .
  from t [of imapParams exampleWorld,
          THEN conjunct2, THEN conjunct2, THEN conjunct1, THEN mp, OF h3]
  have c: "\<exists>r w' account.
      addEmailAccount exampleWorld imapParams = (Inr r, w') \<and>
      r_accountId r = nextRowid exampleWorld \<and>
      getAccountById w' (r_accountId r) = Some account \<and>
      accountName account = optString (p_accountName imapParams) \<and>
      provider account = Imap \<and>
      providerConfig account =
        ImapConfig (p_host imapParams) (p_port imapParams) (p_username imapParams)
          (p_password imapParams) True \<and>
      isActive account \<and>
      email_accounts w' = account # email_accounts exampleWorld" .
  from t [of "imapParams\<lparr>p_accountName := Some ''Work''\<rparr>" exampleWorld,
          THEN conjunct2, THEN conjunct2, THEN conjunct2, THEN mp, OF h4]
  have d: "addEmailAccount exampleWorld (imapParams\<lparr>p_accountName := Some ''Work''\<rparr>) =
     (Inl (Error (''Account name '' @
                  quoted (optString (p_accountName (imapParams\<lparr>p_accountName := Some ''Work''\<rparr>))) @
                  '' already exists'')), exampleWorld)" .
  from a b c d show ?thesis by blast
qed

end
